theory Spec2Isabelle
  imports Complex_Main "HOL-Library.AList" "HOL-Library.Sublist"
begin

section \<open>Python values\<close>

text \<open>
  Both monitoring modules pass around dictionaries of type \<^verbatim>\<open>Dict[str, Any]\<close>.
  A value is \<^verbatim>\<open>None\<close>, a boolean, a number, a string or a dictionary with string
  keys. A dictionary is an association list: Python dictionaries keep insertion order,
  \<open>map_of\<close> is the lookup, \<open>AList.update\<close> is item assignment (an existing key keeps
  its place, a new key goes to the end) and \<open>AList.delete\<close> is \<^verbatim>\<open>pop(key, None)\<close>.
  Strings are lists of characters; \<open>lower\<close> folds the ASCII letters, which is what
  \<^verbatim>\<open>str.lower\<close> does on ASCII text.
\<close>

datatype pyval =
    PNone
  | PBool bool
  | PNum int
  | PFloat real
  | PStr string
  | PDict "(string \<times> pyval) list"

type_synonym pydict = "(string \<times> pyval) list"

text \<open>The errors that the dynamically typed operations below can raise.\<close>

datatype pyerror = TypeError | AttributeError | KeyError

definition bind :: "pyerror + 'a \<Rightarrow> ('a \<Rightarrow> pyerror + 'b) \<Rightarrow> pyerror + 'b" where
  "bind m f = (case m of Inl e \<Rightarrow> Inl e | Inr x \<Rightarrow> f x)"

text \<open>\<^verbatim>\<open>needle in hay\<close> for two strings: \<open>needle\<close> occurs as a contiguous run.\<close>

fun contains :: "string \<Rightarrow> string \<Rightarrow> bool" where
  "contains needle [] = (needle = [])"
| "contains needle (c # cs) = (prefix needle (c # cs) \<or> contains needle cs)"

text \<open>
  \<^verbatim>\<open>key in x\<close>: key membership for a dictionary, substring test for a string,
  \<^verbatim>\<open>TypeError\<close> for \<^verbatim>\<open>None\<close>, booleans and numbers.
\<close>

fun py_in :: "string \<Rightarrow> pyval \<Rightarrow> pyerror + bool" where
  "py_in k (PDict d) = Inr (map_of d k \<noteq> None)"
| "py_in k (PStr s) = Inr (contains k s)"
| "py_in k _ = Inl TypeError"

text \<open>\<^verbatim>\<open>x[key]\<close> with a string key: only a dictionary can be subscripted so.\<close>

fun py_getitem :: "pyval \<Rightarrow> string \<Rightarrow> pyerror + pyval" where
  "py_getitem (PDict d) k = (case map_of d k of None \<Rightarrow> Inl KeyError | Some v \<Rightarrow> Inr v)"
| "py_getitem _ k = Inl TypeError"

text \<open>\<^verbatim>\<open>x[key] = v\<close>, returning the updated container.\<close>

fun py_setitem :: "pyval \<Rightarrow> string \<Rightarrow> pyval \<Rightarrow> pyerror + pyval" where
  "py_setitem (PDict d) k v = Inr (PDict (AList.update k v d))"
| "py_setitem _ k v = Inl TypeError"

text \<open>\<^verbatim>\<open>x.pop(key, None)\<close>, returning the updated container.\<close>

fun py_pop :: "pyval \<Rightarrow> string \<Rightarrow> pyerror + pyval" where
  "py_pop (PDict d) k = Inr (PDict (AList.delete k d))"
| "py_pop _ k = Inl AttributeError"

text \<open>\<^verbatim>\<open>x.get(key, default)\<close>.\<close>

fun py_get :: "pyval \<Rightarrow> string \<Rightarrow> pyval \<Rightarrow> pyerror + pyval" where
  "py_get (PDict d) k dflt = Inr (case map_of d k of None \<Rightarrow> dflt | Some v \<Rightarrow> v)"
| "py_get _ k dflt = Inl AttributeError"

text \<open>Truth value of a value in a condition.\<close>

fun truthy :: "pyval \<Rightarrow> bool" where
  "truthy PNone = False"
| "truthy (PBool b) = b"
| "truthy (PNum n) = (n \<noteq> 0)"
| "truthy (PFloat x) = (x \<noteq> 0)"
| "truthy (PStr s) = (s \<noteq> [])"
| "truthy (PDict d) = (d \<noteq> [])"

text \<open>
  \<^verbatim>\<open>s.replace(old, new)\<close>: every non-overlapping occurrence of \<open>old\<close>, scanning from
  the left, is replaced; with an empty \<open>old\<close>, \<open>new\<close> is put before every character
  and at the end.
\<close>

function replace :: "string \<Rightarrow> string \<Rightarrow> string \<Rightarrow> string" where
  "replace old new [] = (if old = [] then new else [])"
| "replace old new (c # cs) =
     (if old = [] then new @ c # replace old new cs
      else if prefix old (c # cs) then new @ replace old new (drop (length old) (c # cs))
      else c # replace old new cs)"
  by pat_completeness auto
termination
  by (relation "measure (\<lambda>(old, new, s). length s)") auto

fun py_replace :: "pyval \<Rightarrow> string \<Rightarrow> string \<Rightarrow> pyerror + pyval" where
  "py_replace (PStr s) old new = Inr (PStr (replace old new s))"
| "py_replace _ old new = Inl AttributeError"

definition lower_char :: "char \<Rightarrow> char" where
  "lower_char c =
     (let n = (of_char c :: nat)
      in if of_char CHR ''A'' \<le> n \<and> n \<le> of_char CHR ''Z'' then char_of (n + 32) else c)"

definition lower :: "string \<Rightarrow> string" where
  "lower s = map lower_char s"

section \<open>sentry.py: the filters\<close>

definition REDACTED :: pyval where
  "REDACTED = PStr ''[REDACTED]''"

text \<open>
  The body of \<^verbatim>\<open>if "request" in event\<close>, on the request value. The nested dictionary
  is mutated in place in the source; here the updated child is stored back under its key.
\<close>

definition pop_headers :: "pyval \<Rightarrow> pyerror + pyval" where
  "pop_headers headers =
     bind (py_pop headers ''authorization'') (\<lambda>h1.
     bind (py_pop h1 ''cookie'') (\<lambda>h2.
     py_pop h2 ''x-api-key''))"

definition sanitize_headers :: "pyval \<Rightarrow> pyerror + pyval" where
  "sanitize_headers request =
     bind (py_in ''headers'' request) (\<lambda>present.
       if present then
         bind (py_getitem request ''headers'') (\<lambda>headers.
         bind (pop_headers headers) (\<lambda>headers'.
         py_setitem request ''headers'' headers'))
       else Inr request)"

definition sanitize_query :: "pyval \<Rightarrow> pyerror + pyval" where
  "sanitize_query request =
     bind (py_in ''query_string'' request) (\<lambda>present.
       if present then
         bind (py_getitem request ''query_string'') (\<lambda>query.
           if truthy query then
             bind (py_replace query ''token='' ''token=[REDACTED]'') (\<lambda>sanitized.
             bind (py_replace sanitized ''api_key='' ''api_key=[REDACTED]'') (\<lambda>sanitized'.
             py_setitem request ''query_string'' sanitized'))
           else Inr request)
       else Inr request)"

definition filter_request :: "pyval \<Rightarrow> pyerror + pyval" where
  "filter_request event =
     bind (py_in ''request'' event) (\<lambda>present.
       if present then
         bind (py_getitem event ''request'') (\<lambda>request.
         bind (sanitize_headers request) (\<lambda>request'.
         bind (sanitize_query request') (\<lambda>request''.
         py_setitem event ''request'' request'')))
       else Inr event)"

text \<open>
  \<^verbatim>\<open>for key in list(extra.keys())\<close>: the keys are listed first, then each sensitive
  one is assigned the marker.
\<close>

definition sensitive_key :: "string \<Rightarrow> bool" where
  "sensitive_key key \<longleftrightarrow> contains ''password'' (lower key) \<or> contains ''secret'' (lower key)"

fun redact_keys :: "string list \<Rightarrow> pydict \<Rightarrow> pydict" where
  "redact_keys [] extra = extra"
| "redact_keys (key # keys) extra =
     redact_keys keys (if sensitive_key key then AList.update key REDACTED extra else extra)"

fun py_keys :: "pyval \<Rightarrow> pyerror + string list" where
  "py_keys (PDict d) = Inr (map fst d)"
| "py_keys _ = Inl AttributeError"

definition redact_extra :: "pyval \<Rightarrow> pyerror + pyval" where
  "redact_extra extra =
     bind (py_keys extra) (\<lambda>keys.
       case extra of PDict d \<Rightarrow> Inr (PDict (redact_keys keys d)) | _ \<Rightarrow> Inl TypeError)"

definition filter_extra :: "pyval \<Rightarrow> pyerror + pyval" where
  "filter_extra event =
     bind (py_in ''extra'' event) (\<lambda>present.
       if present then
         bind (py_getitem event ''extra'') (\<lambda>extra.
         bind (redact_extra extra) (\<lambda>extra'.
         py_setitem event ''extra'' extra'))
       else Inr event)"

definition sanitize_database :: "pyval \<Rightarrow> pyerror + pyval" where
  "sanitize_database contexts =
     bind (py_in ''database'' contexts) (\<lambda>present.
       if present then
         bind (py_getitem contexts ''database'') (\<lambda>db.
         bind (py_in ''connection_string'' db) (\<lambda>has_cs.
           if has_cs then
             bind (py_setitem db ''connection_string'' REDACTED) (\<lambda>db'.
             py_setitem contexts ''database'' db')
           else Inr contexts))
       else Inr contexts)"

definition sanitize_stripe :: "pyval \<Rightarrow> pyerror + pyval" where
  "sanitize_stripe contexts =
     bind (py_in ''stripe'' contexts) (\<lambda>present.
       if present then
         bind (py_getitem contexts ''stripe'') (\<lambda>stripe.
         bind (py_pop stripe ''secret_key'') (\<lambda>s1.
         bind (py_pop s1 ''api_key'') (\<lambda>s2.
         py_setitem contexts ''stripe'' s2)))
       else Inr contexts)"

definition filter_contexts :: "pyval \<Rightarrow> pyerror + pyval" where
  "filter_contexts event =
     bind (py_in ''contexts'' event) (\<lambda>present.
       if present then
         bind (py_getitem event ''contexts'') (\<lambda>contexts.
         bind (sanitize_database contexts) (\<lambda>contexts'.
         bind (sanitize_stripe contexts') (\<lambda>contexts''.
         py_setitem event ''contexts'' contexts'')))
       else Inr event)"

text \<open>
  \<^verbatim>\<open>before_send_filter(event, hint)\<close>. The result is \<open>Inl\<close> of the error raised, or
  \<open>Inr\<close> of the returned value: \<open>Some\<close> of the event to keep, \<open>None\<close> to drop it.
\<close>

definition before_send_filter :: "pyval \<Rightarrow> pyval \<Rightarrow> pyerror + pyval option" where
  "before_send_filter event hint =
     bind (filter_request event) (\<lambda>e1.
     bind (filter_extra e1) (\<lambda>e2.
     bind (filter_contexts e2) (\<lambda>e3.
     Inr (Some e3))))"

text \<open>
  The shape the filter expects of an event: \<^verbatim>\<open>request\<close>, \<^verbatim>\<open>extra\<close> and \<^verbatim>\<open>contexts\<close>,
  where present, are dictionaries; so are \<^verbatim>\<open>request.headers\<close>, \<^verbatim>\<open>contexts.database\<close> and
  \<^verbatim>\<open>contexts.stripe\<close>; \<^verbatim>\<open>request.query_string\<close> is a string or a false value such as
  \<^verbatim>\<open>None\<close>. On any other shape the dynamically typed operations raise.
\<close>

definition is_dict :: "pyval \<Rightarrow> bool" where
  "is_dict v = (case v of PDict d \<Rightarrow> True | _ \<Rightarrow> False)"

definition is_str :: "pyval \<Rightarrow> bool" where
  "is_str v = (case v of PStr s \<Rightarrow> True | _ \<Rightarrow> False)"

definition absent_or :: "(pyval \<Rightarrow> bool) \<Rightarrow> pydict \<Rightarrow> string \<Rightarrow> bool" where
  "absent_or P d k = (case map_of d k of None \<Rightarrow> True | Some v \<Rightarrow> P v)"

definition query_ok :: "pyval \<Rightarrow> bool" where
  "query_ok v \<longleftrightarrow> is_str v \<or> \<not> truthy v"

definition request_ok :: "pyval \<Rightarrow> bool" where
  "request_ok v =
     (case v of PDict r \<Rightarrow> absent_or is_dict r ''headers'' \<and> absent_or query_ok r ''query_string''
      | _ \<Rightarrow> False)"

definition contexts_ok :: "pyval \<Rightarrow> bool" where
  "contexts_ok v =
     (case v of PDict c \<Rightarrow> absent_or is_dict c ''database'' \<and> absent_or is_dict c ''stripe''
      | _ \<Rightarrow> False)"

definition event_shape_ok :: "pyval \<Rightarrow> bool" where
  "event_shape_ok ev =
     (case ev of PDict e \<Rightarrow>
        absent_or request_ok e ''request'' \<and> absent_or is_dict e ''extra'' \<and>
        absent_or contexts_ok e ''contexts''
      | _ \<Rightarrow> False)"

text \<open>
  The vocabulary for saying that one dictionary is another with only the sensitive parts
  masked. \<open>same_except ks d d'\<close>: the two dictionaries have the same keys in the same
  order and agree on every key outside \<open>ks\<close>. The other relations say, for the request,
  the extra fields, the contexts and the whole event, what stands under the keys that the
  filter rewrites; each of them covers every key of the dictionary.
\<close>

definition same_except :: "string set \<Rightarrow> pydict \<Rightarrow> pydict \<Rightarrow> bool" where
  "same_except ks d d' \<longleftrightarrow>
     map fst d' = map fst d \<and> (\<forall>k. k \<notin> ks \<longrightarrow> map_of d' k = map_of d k)"

definition request_masked :: "pydict \<Rightarrow> pydict \<Rightarrow> bool" where
  "request_masked r r' \<longleftrightarrow>
     same_except {''headers'', ''query_string''} r r'
     \<and> (\<forall>h. map_of r ''headers'' = Some (PDict h) \<longrightarrow>
           map_of r' ''headers'' =
             Some (PDict (filter (\<lambda>kv. fst kv \<notin> {''authorization'', ''cookie'', ''x-api-key''}) h)))
     \<and> (\<forall>q. map_of r ''query_string'' = Some q \<longrightarrow>
           map_of r' ''query_string'' =
             Some (case q of
                     PStr s \<Rightarrow>
                       PStr (replace ''api_key='' ''api_key=[REDACTED]''
                              (replace ''token='' ''token=[REDACTED]'' s))
                   | _ \<Rightarrow> q))"

definition extra_masked :: "pydict \<Rightarrow> pydict \<Rightarrow> bool" where
  "extra_masked x x' \<longleftrightarrow>
     map fst x' = map fst x
     \<and> (\<forall>k v. map_of x k = Some v \<longrightarrow>
           map_of x' k = Some (if sensitive_key k then REDACTED else v))"

definition contexts_masked :: "pydict \<Rightarrow> pydict \<Rightarrow> bool" where
  "contexts_masked c c' \<longleftrightarrow>
     same_except {''database'', ''stripe''} c c'
     \<and> (\<forall>db. map_of c ''database'' = Some (PDict db) \<longrightarrow>
           (\<exists>db'. map_of c' ''database'' = Some (PDict db')
              \<and> same_except {''connection_string''} db db'
              \<and> (\<forall>v. map_of db ''connection_string'' = Some v \<longrightarrow>
                    map_of db' ''connection_string'' = Some REDACTED)))
     \<and> (\<forall>st. map_of c ''stripe'' = Some (PDict st) \<longrightarrow>
           map_of c' ''stripe'' =
             Some (PDict (filter (\<lambda>kv. fst kv \<notin> {''secret_key'', ''api_key''}) st)))"

definition event_masked :: "pydict \<Rightarrow> pydict \<Rightarrow> bool" where
  "event_masked e e' \<longleftrightarrow>
     same_except {''request'', ''extra'', ''contexts''} e e'
     \<and> (\<forall>r. map_of e ''request'' = Some (PDict r) \<longrightarrow>
           (\<exists>r'. map_of e' ''request'' = Some (PDict r') \<and> request_masked r r'))
     \<and> (\<forall>x. map_of e ''extra'' = Some (PDict x) \<longrightarrow>
           (\<exists>x'. map_of e' ''extra'' = Some (PDict x') \<and> extra_masked x x'))
     \<and> (\<forall>c. map_of e ''contexts'' = Some (PDict c) \<longrightarrow>
           (\<exists>c'. map_of e' ''contexts'' = Some (PDict c') \<and> contexts_masked c c'))"

text \<open>
  \<^verbatim>\<open>any(x in url for x in [...])\<close>: the tests run from the left and stop at the first
  hit; a test that raises ends the whole expression.
\<close>

fun any_in :: "string list \<Rightarrow> pyval \<Rightarrow> pyerror + bool" where
  "any_in [] url = Inr False"
| "any_in (x # xs) url =
     bind (py_in x url) (\<lambda>hit. if hit then Inr True else any_in xs url)"

definition analytics_markers :: "string list" where
  "analytics_markers = [''analytics'', ''tracking'', ''segment'', ''mixpanel'']"

text \<open>\<^verbatim>\<open>before_breadcrumb_filter(crumb, hint)\<close>: \<open>None\<close> drops the breadcrumb.\<close>

definition before_breadcrumb_filter :: "pyval \<Rightarrow> pyval \<Rightarrow> pyerror + pyval option" where
  "before_breadcrumb_filter crumb hint =
     bind (py_get crumb ''category'' PNone) (\<lambda>category.
       if category = PStr ''query'' then Inr None
       else
         bind (py_get crumb ''category'' PNone) (\<lambda>category'.
           if category' = PStr ''httplib'' then
             bind (py_get crumb ''data'' (PDict [])) (\<lambda>data.
             bind (py_get data ''url'' (PStr [])) (\<lambda>url.
             bind (any_in analytics_markers url) (\<lambda>hit.
               if hit then Inr None else Inr (Some crumb))))
           else Inr (Some crumb)))"

text \<open>
  The shape the filter expects of a breadcrumb: \<^verbatim>\<open>data\<close>, where present, is a
  dictionary whose \<^verbatim>\<open>url\<close>, where present, is a string.
\<close>

definition data_ok :: "pyval \<Rightarrow> bool" where
  "data_ok v = (case v of PDict d \<Rightarrow> absent_or is_str d ''url'' | _ \<Rightarrow> False)"

definition crumb_shape_ok :: "pyval \<Rightarrow> bool" where
  "crumb_shape_ok crumb = (case crumb of PDict c \<Rightarrow> absent_or data_ok c ''data'' | _ \<Rightarrow> False)"

section \<open>app_insights.py: the adapter\<close>

text \<open>
  An exception object: its class name (\<^verbatim>\<open>type(error).__name__\<close>), its text
  (\<^verbatim>\<open>str(error)\<close>) and whether its class derives from \<^verbatim>\<open>Exception\<close>. Classes such as
  \<^verbatim>\<open>asyncio.CancelledError\<close>, \<^verbatim>\<open>KeyboardInterrupt\<close> and \<^verbatim>\<open>SystemExit\<close> derive from
  \<^verbatim>\<open>BaseException\<close> only, and \<^verbatim>\<open>except Exception\<close> does not catch them.
\<close>

datatype exc = Exc (exc_type: string) (exc_message: string) (is_exception: bool)

datatype level = DEBUG | INFO | WARNING | ERROR | CRITICAL

text \<open>
  Every call that leaves the module: the OpenCensus constructors and methods, and the
  calls on the \<^verbatim>\<open>logging\<close> logger that carries the Azure handler. \<open>LogCall\<close> holds the
  level of the logger method, the message, the \<^verbatim>\<open>exc_info\<close> argument and the
  \<^verbatim>\<open>custom_dimensions\<close> dictionary of \<^verbatim>\<open>extra\<close>.
\<close>

datatype vendor_call =
    TraceIntegrations "string list"
  | NewAzureExporter string
  | NewProbabilitySampler real
  | NewTracer string real
  | NewMetricsExporter string
  | NewAzureLogHandler string
  | NewMeasureFloat string
  | NewLastValueAggregation
  | NewView string
  | RegisterView string
  | NewMeasurementMap
  | NewTagMap
  | TagMapInsert string pyval
  | MeasureFloatPut string pyval
  | RecordMeasurements
  | ExportTraces
  | ExportMetrics
  | LogCall level string "exc option" pydict

text \<open>
  The OpenCensus library is not part of the repository: whether one of its calls raises
  is a parameter, \<open>Some e\<close> for a call that raises \<open>e\<close>.
\<close>

type_synonym vendor = "vendor_call \<Rightarrow> exc option"

datatype tracer = Tracer (tracer_exporter: string) (tracer_rate: real)

datatype handler = AzureLogHandler (handler_id: nat) (handler_connection: string)

datatype logger_ref = ModuleLogger

text \<open>
  The process-wide state: the three module globals, the handlers and the level of the
  logger \<^verbatim>\<open>logging.getLogger(__name__)\<close> (one object per name, kept by \<^verbatim>\<open>logging\<close>), a
  counter that tells one handler object from another, the outbound calls made so far and
  the lines printed.
\<close>

record world =
  g_tracer :: "tracer option"
  g_metrics_exporter :: "string option"
  g_logger :: "logger_ref option"
  logger_handlers :: "handler list"
  logger_level :: "level option"
  next_handler_id :: nat
  calls :: "vendor_call list"
  stdout :: "string list"

text \<open>The state when the module has just been imported.\<close>

definition initial_world :: world where
  "initial_world =
     \<lparr>g_tracer = None, g_metrics_exporter = None, g_logger = None, logger_handlers = [],
      logger_level = None, next_handler_id = 0, calls = [], stdout = []\<rparr>"

text \<open>A statement either returns a value or raises, and leaves a new state behind.\<close>

type_synonym 'a prog = "world \<Rightarrow> (exc + 'a) \<times> world"

definition ret :: "'a \<Rightarrow> 'a prog" where
  "ret x = (\<lambda>w. (Inr x, w))"

definition seq :: "'a prog \<Rightarrow> ('a \<Rightarrow> 'b prog) \<Rightarrow> 'b prog" where
  "seq m f = (\<lambda>w. case m w of (Inl e, w') \<Rightarrow> (Inl e, w') | (Inr x, w') \<Rightarrow> f x w')"

text \<open>\<^verbatim>\<open>try: body  except Exception as e: handler(e)\<close>.\<close>

definition try_except :: "unit prog \<Rightarrow> (exc \<Rightarrow> unit prog) \<Rightarrow> unit prog" where
  "try_except body handler =
     (\<lambda>w. case body w of
        (Inl e, w') \<Rightarrow> if is_exception e then handler e w' else (Inl e, w')
      | (Inr x, w') \<Rightarrow> (Inr x, w'))"

text \<open>An OpenCensus call: it is recorded, and raises if the library does.\<close>

definition vcall :: "vendor \<Rightarrow> vendor_call \<Rightarrow> unit prog" where
  "vcall vendor c =
     (\<lambda>w. (case vendor c of Some e \<Rightarrow> Inl e | None \<Rightarrow> Inr (),
           w\<lparr>calls := calls w @ [c]\<rparr>))"

text \<open>
  A call of a \<^verbatim>\<open>logging.Logger\<close> method. The \<^verbatim>\<open>extra\<close> dictionary has the single key
  \<^verbatim>\<open>custom_dimensions\<close>, which no log record attribute uses, and \<^verbatim>\<open>logging\<close> reports
  handler failures itself: the call returns.
\<close>

definition log_call :: "level \<Rightarrow> string \<Rightarrow> exc option \<Rightarrow> pydict \<Rightarrow> unit prog" where
  "log_call lvl msg exc_info dims =
     (\<lambda>w. (Inr (), w\<lparr>calls := calls w @ [LogCall lvl msg exc_info dims]\<rparr>))"

definition print :: "string \<Rightarrow> unit prog" where
  "print line = (\<lambda>w. (Inr (), w\<lparr>stdout := stdout w @ [line]\<rparr>))"

text \<open>\<^verbatim>\<open>os.getenv(key, default)\<close> on an environment.\<close>

definition getenv :: "(string \<rightharpoonup> string) \<Rightarrow> string \<Rightarrow> string \<Rightarrow> string" where
  "getenv env key dflt = (case env key of None \<Rightarrow> dflt | Some v \<Rightarrow> v)"

text \<open>
  \<^verbatim>\<open>Logger.addHandler\<close> appends the handler unless that very object is already attached.
\<close>

definition add_handler :: "handler \<Rightarrow> unit prog" where
  "add_handler h =
     (\<lambda>w. (Inr (), if h \<in> set (logger_handlers w) then w
                    else w\<lparr>logger_handlers := logger_handlers w @ [h]\<rparr>))"

text \<open>\<^verbatim>\<open>AzureLogHandler(connection_string=...)\<close>: a new object on every call.\<close>

definition new_log_handler :: "vendor \<Rightarrow> string \<Rightarrow> handler prog" where
  "new_log_handler vendor cs =
     seq (vcall vendor (NewAzureLogHandler cs)) (\<lambda>_ w.
       (Inr (AzureLogHandler (next_handler_id w) cs),
        w\<lparr>next_handler_id := Suc (next_handler_id w)\<rparr>))"

text \<open>The \<^verbatim>\<open>try\<close> block of \<^verbatim>\<open>init_app_insights\<close>.\<close>

definition init_body :: "vendor \<Rightarrow> string \<Rightarrow> string \<Rightarrow> unit prog" where
  "init_body vendor cs environment =
     seq (vcall vendor (TraceIntegrations [''requests'', ''sqlalchemy'', ''postgresql''])) (\<lambda>_.
     let sampling_rate = (if environment = ''production'' then 0.1 else 1.0) in
     seq (vcall vendor (NewAzureExporter cs)) (\<lambda>_.
     seq (vcall vendor (NewProbabilitySampler sampling_rate)) (\<lambda>_.
     seq (vcall vendor (NewTracer cs sampling_rate)) (\<lambda>_.
     seq (\<lambda>w. (Inr (), w\<lparr>g_tracer := Some (Tracer cs sampling_rate)\<rparr>)) (\<lambda>_.
     seq (vcall vendor (NewMetricsExporter cs)) (\<lambda>_.
     seq (\<lambda>w. (Inr (), w\<lparr>g_metrics_exporter := Some cs\<rparr>)) (\<lambda>_.
     seq (\<lambda>w. (Inr (), w\<lparr>g_logger := Some ModuleLogger\<rparr>)) (\<lambda>_.
     seq (new_log_handler vendor cs) (\<lambda>h.
     seq (add_handler h) (\<lambda>_.
     seq (\<lambda>w. (Inr (), w\<lparr>logger_level := Some INFO\<rparr>)) (\<lambda>_.
     print (''[App Insights] Initialized successfully (environment: '' @ environment
             @ '')''))))))))))))"

definition init_app_insights :: "vendor \<Rightarrow> (string \<rightharpoonup> string) \<Rightarrow> unit prog" where
  "init_app_insights vendor env =
     (case env ''APPLICATIONINSIGHTS_CONNECTION_STRING'' of
        None \<Rightarrow> print ''[App Insights] Connection string not configured, monitoring disabled''
      | Some cs \<Rightarrow>
          if cs = [] then
            print ''[App Insights] Connection string not configured, monitoring disabled''
          else
            try_except
              (init_body vendor cs
                 (getenv env ''APPINSIGHTS_ENVIRONMENT'' (getenv env ''NODE_ENV'' ''development'')))
              (\<lambda>e. print (''[App Insights] Failed to initialize: '' @ exc_message e)))"

text \<open>\<^verbatim>\<open>properties or {}\<close>, and the \<^verbatim>\<open>**\<close> unpacking into a dictionary display.\<close>

definition or_empty :: "pydict option \<Rightarrow> pydict" where
  "or_empty d = (case d of None \<Rightarrow> [] | Some kvs \<Rightarrow> kvs)"

definition unpack_into :: "pydict \<Rightarrow> pydict \<Rightarrow> pydict" where
  "unpack_into base d = fold (\<lambda>kv acc. AList.update (fst kv) (snd kv) acc) d base"

definition track_event :: "string \<Rightarrow> pydict option \<Rightarrow> pydict option \<Rightarrow> unit prog" where
  "track_event name properties measurements =
     (\<lambda>w. if g_logger w = None then (Inr (), w)
          else log_call INFO (''Event: '' @ name) None
                 (unpack_into (unpack_into [(''event_name'', PStr name)] (or_empty properties))
                    (or_empty measurements)) w)"

text \<open>
  In \<^verbatim>\<open>track_metric\<close> the loop \<^verbatim>\<open>for key, value in properties.items()\<close> binds the name
  \<^verbatim>\<open>value\<close> of the parameter anew: after the loop it holds the last property value.
\<close>

fun insert_tags :: "vendor \<Rightarrow> pydict \<Rightarrow> pyval \<Rightarrow> pyval prog" where
  "insert_tags vendor [] v = ret v"
| "insert_tags vendor ((key, v') # rest) v =
     seq (vcall vendor (TagMapInsert key v')) (\<lambda>_. insert_tags vendor rest v')"

definition track_metric :: "vendor \<Rightarrow> string \<Rightarrow> real \<Rightarrow> pydict option \<Rightarrow> unit prog" where
  "track_metric vendor name v properties =
     (\<lambda>w. if g_metrics_exporter w = None then (Inr (), w)
          else
            (seq (vcall vendor (NewMeasureFloat name)) (\<lambda>_.
             seq (vcall vendor NewLastValueAggregation) (\<lambda>_.
             seq (vcall vendor (NewView name)) (\<lambda>_.
             seq (vcall vendor (RegisterView name)) (\<lambda>_.
             seq (vcall vendor NewMeasurementMap) (\<lambda>_.
             seq (vcall vendor NewTagMap) (\<lambda>_.
             seq (insert_tags vendor (or_empty properties) (PFloat v)) (\<lambda>v'.
             seq (vcall vendor (MeasureFloatPut name v')) (\<lambda>_.
             vcall vendor RecordMeasurements))))))))) w)"

definition exception_dimensions :: "exc \<Rightarrow> pydict option \<Rightarrow> pydict" where
  "exception_dimensions error properties =
     unpack_into [(''exception_type'', PStr (exc_type error)),
                  (''exception_message'', PStr (exc_message error))] (or_empty properties)"

definition track_exception :: "exc \<Rightarrow> string \<Rightarrow> pydict option \<Rightarrow> unit prog" where
  "track_exception error severity properties =
     (\<lambda>w. if g_logger w = None then (Inr (), w)
          else
            (if severity = ''CRITICAL'' then
               log_call CRITICAL (exc_message error) (Some error)
                 (exception_dimensions error properties)
             else if severity = ''WARNING'' then
               log_call WARNING (exc_message error) (Some error)
                 (exception_dimensions error properties)
             else
               log_call ERROR (exc_message error) (Some error)
                 (exception_dimensions error properties)) w)"

definition track_trace :: "string \<Rightarrow> string \<Rightarrow> pydict option \<Rightarrow> unit prog" where
  "track_trace message severity properties =
     (\<lambda>w. if g_logger w = None then (Inr (), w)
          else
            (if severity = ''DEBUG'' then log_call DEBUG message None (or_empty properties)
             else if severity = ''WARNING'' then log_call WARNING message None (or_empty properties)
             else if severity = ''ERROR'' then log_call ERROR message None (or_empty properties)
             else if severity = ''CRITICAL'' then
               log_call CRITICAL message None (or_empty properties)
             else log_call INFO message None (or_empty properties)) w)"

definition track_request ::
  "string \<Rightarrow> string \<Rightarrow> real \<Rightarrow> int \<Rightarrow> bool \<Rightarrow> pydict option \<Rightarrow> unit prog" where
  "track_request name url duration response_code success properties =
     (\<lambda>w. if g_logger w = None then (Inr (), w)
          else log_call INFO (''Request: '' @ name) None
                 (unpack_into
                    [(''request_name'', PStr name), (''url'', PStr url),
                     (''duration_ms'', PFloat duration), (''response_code'', PNum response_code),
                     (''success'', PBool success)]
                    (or_empty properties)) w)"

definition track_dependency ::
  "string \<Rightarrow> string \<Rightarrow> string \<Rightarrow> real \<Rightarrow> bool \<Rightarrow> int option \<Rightarrow> pydict option \<Rightarrow> unit prog"
  where
  "track_dependency name dependency_type target duration success result_code properties =
     (\<lambda>w. if g_logger w = None then (Inr (), w)
          else log_call INFO (''Dependency: '' @ name) None
                 (unpack_into
                    [(''dependency_name'', PStr name), (''dependency_type'', PStr dependency_type),
                     (''target'', PStr target), (''duration_ms'', PFloat duration),
                     (''success'', PBool success),
                     (''result_code'', (case result_code of None \<Rightarrow> PNone | Some c \<Rightarrow> PNum c))]
                    (or_empty properties)) w)"

definition flush :: "vendor \<Rightarrow> unit prog" where
  "flush vendor =
     seq (\<lambda>w. if g_tracer w \<noteq> None then vcall vendor ExportTraces w else (Inr (), w)) (\<lambda>_ w.
       if g_metrics_exporter w \<noteq> None then vcall vendor ExportMetrics w else (Inr (), w))"

subsection \<open>The FastAPI middleware\<close>

text \<open>
  What the middleware reads of a request: \<^verbatim>\<open>request.method\<close>, \<^verbatim>\<open>request.url.path\<close> and
  \<^verbatim>\<open>str(request.url)\<close>; and of a response, \<^verbatim>\<open>response.status_code\<close>.
\<close>

record request =
  http_method :: string
  url_path :: string
  url_text :: string

record response =
  status_code :: int
  body :: string

text \<open>The tracking calls the middleware makes, with their arguments.\<close>

datatype emission =
    TrackRequest string string real int bool "pydict option"
  | TrackException exc string "pydict option"

definition request_properties :: "request \<Rightarrow> pydict option" where
  "request_properties req = Some [(''method'', PStr (http_method req)), (''path'', PStr (url_path req))]"

text \<open>
  The \<^verbatim>\<open>except Exception as e\<close> clause of the middleware, entered with the error raised
  in the \<^verbatim>\<open>try\<close> block and the tracking calls made so far: it calls
  \<^verbatim>\<open>track_exception\<close> and raises the error again. An error that does not derive from
  \<^verbatim>\<open>Exception\<close> passes the clause by.
\<close>

definition on_exception ::
  "request \<Rightarrow> exc \<Rightarrow> emission list \<Rightarrow> world \<Rightarrow> (exc + response) \<times> emission list \<times> world"
  where
  "on_exception req e emitted w =
     (if is_exception e then
        (case track_exception e ''ERROR'' (request_properties req) w of
           (Inl e', w') \<Rightarrow>
             (Inl e', emitted @ [TrackException e ''ERROR'' (request_properties req)], w')
         | (Inr _, w') \<Rightarrow>
             (Inl e, emitted @ [TrackException e ''ERROR'' (request_properties req)], w'))
      else (Inl e, emitted, w))"

text \<open>
  \<^verbatim>\<open>app_insights_middleware(request, call_next)\<close>. \<open>start_time\<close> and \<open>end_time\<close> are the
  two readings of \<^verbatim>\<open>time.time()\<close>; \<open>handled\<close> is what \<^verbatim>\<open>await call_next(request)\<close> did,
  a response or an error raised; \<open>w\<close> is the state at that moment. The result is what the
  caller observes, the tracking calls made, and the state left behind.
\<close>

definition app_insights_middleware ::
  "real \<Rightarrow> real \<Rightarrow> request \<Rightarrow> exc + response \<Rightarrow> world
     \<Rightarrow> (exc + response) \<times> emission list \<times> world"
  where
  "app_insights_middleware start_time end_time req handled w =
     (case handled of
        Inl e \<Rightarrow> on_exception req e [] w
      | Inr resp \<Rightarrow>
          (let duration = (end_time - start_time) * 1000;
               name = http_method req @ '' '' @ url_path req;
               success = (status_code resp < 400);
               call = TrackRequest name (url_text req) duration (status_code resp) success
                        (request_properties req)
           in case track_request name (url_text req) duration (status_code resp) success
                     (request_properties req) w of
                (Inl e, w') \<Rightarrow> on_exception req e [call] w'
              | (Inr _, w') \<Rightarrow> (Inr resp, [call], w')))"

section \<open>Properties of the sentry.py filters\<close>

lemma contains_sublist: "contains n h \<longleftrightarrow> sublist n h"
  by (induction h) (auto simp: sublist_Cons_right)

lemma is_dictE: "is_dict v \<Longrightarrow> (\<And>d. v = PDict d \<Longrightarrow> P) \<Longrightarrow> P"
  by (cases v) (auto simp: is_dict_def)

lemma map_of_update_other: "k \<noteq> k' \<Longrightarrow> map_of (AList.update k' v d) k = map_of d k"
  by (simp add: update_conv')

lemma map_of_update_same: "map_of (AList.update k v d) k = Some v"
  by (simp add: update_conv')

lemma pop_headers_dict:
  "pop_headers (PDict h) =
     Inr (PDict (filter (\<lambda>kv. fst kv \<notin> {''authorization'', ''cookie'', ''x-api-key''}) h))"
  by (induction h) (auto simp: pop_headers_def bind_def)

lemma sanitize_headers_dict:
  assumes "absent_or is_dict r ''headers''"
  shows "\<exists>r'. sanitize_headers (PDict r) = Inr (PDict r')
           \<and> (\<forall>k. k \<noteq> ''headers'' \<longrightarrow> map_of r' k = map_of r k)
           \<and> (\<forall>h. map_of r ''headers'' = Some (PDict h) \<longrightarrow>
                 map_of r' ''headers'' =
                   Some (PDict (filter (\<lambda>kv. fst kv \<notin> {''authorization'', ''cookie'', ''x-api-key''}) h)))
           \<and> (map_of r ''headers'' = None \<longrightarrow> r' = r)"
proof (cases "map_of r ''headers''")
  case None
  then show ?thesis by (simp add: sanitize_headers_def bind_def)
next
  case (Some v)
  with assms obtain h where v: "v = PDict h"
    by (auto simp: absent_or_def elim: is_dictE)
  show ?thesis
    using Some v
    by (simp add: sanitize_headers_def bind_def pop_headers_dict map_of_update_other map_of_update_same)
qed

lemma sanitize_query_dict:
  assumes "absent_or query_ok r ''query_string''"
  shows "\<exists>r'. sanitize_query (PDict r) = Inr (PDict r')
           \<and> (\<forall>k. k \<noteq> ''query_string'' \<longrightarrow> map_of r' k = map_of r k)"
proof (cases "map_of r ''query_string''")
  case None
  then show ?thesis by (simp add: sanitize_query_def bind_def)
next
  case (Some v)
  with assms have "is_str v \<or> \<not> truthy v"
    by (simp add: absent_or_def query_ok_def)
  then show ?thesis
    using Some
    by (cases v) (auto simp: sanitize_query_def bind_def is_str_def map_of_update_other)
qed

lemma filter_request_dict:
  assumes "absent_or request_ok e ''request''"
  shows "\<exists>e'. filter_request (PDict e) = Inr (PDict e')
           \<and> (\<forall>k. k \<noteq> ''request'' \<longrightarrow> map_of e' k = map_of e k)
           \<and> (\<forall>r h. map_of e ''request'' = Some (PDict r) \<longrightarrow> map_of r ''headers'' = Some (PDict h) \<longrightarrow>
                 (\<exists>r'. map_of e' ''request'' = Some (PDict r') \<and>
                   map_of r' ''headers'' =
                     Some (PDict (filter (\<lambda>kv. fst kv \<notin> {''authorization'', ''cookie'', ''x-api-key''}) h))))"
proof (cases "map_of e ''request''")
  case None
  then show ?thesis by (simp add: filter_request_def bind_def)
next
  case (Some v)
  with assms have ok: "request_ok v" by (simp add: absent_or_def)
  then obtain r where v: "v = PDict r"
    and hs: "absent_or is_dict r ''headers''" and qs: "absent_or query_ok r ''query_string''"
    by (cases v) (auto simp: request_ok_def)
  from sanitize_headers_dict [OF hs] obtain r1 where
    r1: "sanitize_headers (PDict r) = Inr (PDict r1)"
    and r1_other: "\<forall>k. k \<noteq> ''headers'' \<longrightarrow> map_of r1 k = map_of r k"
    and r1_hdr: "\<forall>h. map_of r ''headers'' = Some (PDict h) \<longrightarrow>
                 map_of r1 ''headers'' =
                   Some (PDict (filter (\<lambda>kv. fst kv \<notin> {''authorization'', ''cookie'', ''x-api-key''}) h))"
    by blast
  from qs r1_other have "absent_or query_ok r1 ''query_string''"
    by (simp add: absent_or_def)
  from sanitize_query_dict [OF this] obtain r2 where
    r2: "sanitize_query (PDict r1) = Inr (PDict r2)"
    and r2_other: "\<forall>k. k \<noteq> ''query_string'' \<longrightarrow> map_of r2 k = map_of r1 k"
    by blast
  have run: "filter_request (PDict e) = Inr (PDict (AList.update ''request'' (PDict r2) e))"
    using Some v r1 r2 by (simp add: filter_request_def bind_def)
  show ?thesis
    using Some v r1_hdr r2_other
    by (simp add: run map_of_update_other map_of_update_same)
qed


lemma map_of_redact_keys:
  "map_of (redact_keys ks x) k =
     (if k \<in> set ks \<and> sensitive_key k then Some REDACTED else map_of x k)"
  by (induction ks arbitrary: x) (auto simp: update_conv')

lemma keys_update_present:
  "k \<in> set (map fst x) \<Longrightarrow> map fst (AList.update k v x) = map fst x"
  by (simp add: update_keys)

lemma keys_redact_keys:
  "set ks \<subseteq> set (map fst x) \<Longrightarrow> map fst (redact_keys ks x) = map fst x"
proof (induction ks arbitrary: x)
  case Nil
  show ?case by simp
next
  case (Cons a ks)
  define x' where "x' = (if sensitive_key a then AList.update a REDACTED x else x)"
  from Cons.prems have "a \<in> set (map fst x)" by simp
  then have same: "map fst x' = map fst x"
    unfolding x'_def by (cases "sensitive_key a") (simp_all only: keys_update_present if_True if_False)
  from Cons.prems have "set ks \<subseteq> set (map fst x)" by simp
  with same have "set ks \<subseteq> set (map fst x')" by (simp only:)
  from Cons.IH [OF this] same show ?case
    by (simp add: x'_def)
qed

lemma filter_extra_dict:
  assumes "absent_or is_dict e ''extra''"
  shows "\<exists>e'. filter_extra (PDict e) = Inr (PDict e')
           \<and> (\<forall>k. k \<noteq> ''extra'' \<longrightarrow> map_of e' k = map_of e k)
           \<and> (\<forall>x. map_of e ''extra'' = Some (PDict x) \<longrightarrow>
                 map_of e' ''extra'' = Some (PDict (redact_keys (map fst x) x)))"
proof (cases "map_of e ''extra''")
  case None
  then show ?thesis by (simp add: filter_extra_def bind_def)
next
  case (Some v)
  with assms obtain x where v: "v = PDict x"
    by (auto simp: absent_or_def elim: is_dictE)
  show ?thesis
    using Some v
    by (simp add: filter_extra_def redact_extra_def bind_def map_of_update_other map_of_update_same)
qed

lemma sanitize_database_dict:
  assumes "absent_or is_dict c ''database''"
  shows "\<exists>c'. sanitize_database (PDict c) = Inr (PDict c')
           \<and> (\<forall>k. k \<noteq> ''database'' \<longrightarrow> map_of c' k = map_of c k)"
proof (cases "map_of c ''database''")
  case None
  then show ?thesis by (simp add: sanitize_database_def bind_def)
next
  case (Some v)
  with assms obtain db where v: "v = PDict db"
    by (auto simp: absent_or_def elim: is_dictE)
  show ?thesis
    using Some v
    by (simp add: sanitize_database_def bind_def map_of_update_other)
qed

lemma sanitize_stripe_dict:
  assumes "absent_or is_dict c ''stripe''"
  shows "\<exists>c'. sanitize_stripe (PDict c) = Inr (PDict c')"
proof (cases "map_of c ''stripe''")
  case None
  then show ?thesis by (simp add: sanitize_stripe_def bind_def)
next
  case (Some v)
  with assms obtain st where v: "v = PDict st"
    by (auto simp: absent_or_def elim: is_dictE)
  show ?thesis
    using Some v by (simp add: sanitize_stripe_def bind_def)
qed

lemma filter_contexts_dict:
  assumes "absent_or contexts_ok e ''contexts''"
  shows "\<exists>e'. filter_contexts (PDict e) = Inr (PDict e')
           \<and> (\<forall>k. k \<noteq> ''contexts'' \<longrightarrow> map_of e' k = map_of e k)"
proof (cases "map_of e ''contexts''")
  case None
  then show ?thesis by (simp add: filter_contexts_def bind_def)
next
  case (Some v)
  with assms have "contexts_ok v" by (simp add: absent_or_def)
  then obtain c where v: "v = PDict c"
    and db: "absent_or is_dict c ''database''" and st: "absent_or is_dict c ''stripe''"
    by (cases v) (auto simp: contexts_ok_def)
  from sanitize_database_dict [OF db] obtain c1 where
    c1: "sanitize_database (PDict c) = Inr (PDict c1)"
    and c1_other: "\<forall>k. k \<noteq> ''database'' \<longrightarrow> map_of c1 k = map_of c k"
    by blast
  from st c1_other have "absent_or is_dict c1 ''stripe''"
    by (simp add: absent_or_def)
  from sanitize_stripe_dict [OF this] obtain c2 where
    c2: "sanitize_stripe (PDict c1) = Inr (PDict c2)"
    by blast
  show ?thesis
    using Some v c1 c2
    by (simp add: filter_contexts_def bind_def map_of_update_other)
qed

text \<open>The three stages in sequence, on an event of the expected shape.\<close>

lemma before_send_filter_dict:
  assumes "event_shape_ok (PDict e)"
  shows "\<exists>e'. before_send_filter (PDict e) hint = Inr (Some (PDict e'))
           \<and> (\<forall>r h. map_of e ''request'' = Some (PDict r) \<longrightarrow> map_of r ''headers'' = Some (PDict h) \<longrightarrow>
                 (\<exists>r'. map_of e' ''request'' = Some (PDict r') \<and>
                   map_of r' ''headers'' =
                     Some (PDict (filter (\<lambda>kv. fst kv \<notin> {''authorization'', ''cookie'', ''x-api-key''}) h))))
           \<and> (\<forall>x. map_of e ''extra'' = Some (PDict x) \<longrightarrow>
                 map_of e' ''extra'' = Some (PDict (redact_keys (map fst x) x)))"
proof -
  from assms have rq: "absent_or request_ok e ''request''"
    and ex: "absent_or is_dict e ''extra''" and cx: "absent_or contexts_ok e ''contexts''"
    by (simp_all add: event_shape_ok_def)
  from filter_request_dict [OF rq] obtain e1 where
    e1: "filter_request (PDict e) = Inr (PDict e1)"
    and e1_other: "\<forall>k. k \<noteq> ''request'' \<longrightarrow> map_of e1 k = map_of e k"
    and e1_hdr: "\<forall>r h. map_of e ''request'' = Some (PDict r) \<longrightarrow> map_of r ''headers'' = Some (PDict h) \<longrightarrow>
                 (\<exists>r'. map_of e1 ''request'' = Some (PDict r') \<and>
                   map_of r' ''headers'' =
                     Some (PDict (filter (\<lambda>kv. fst kv \<notin> {''authorization'', ''cookie'', ''x-api-key''}) h)))"
    by blast
  from ex e1_other have "absent_or is_dict e1 ''extra''"
    by (simp add: absent_or_def)
  from filter_extra_dict [OF this] obtain e2 where
    e2: "filter_extra (PDict e1) = Inr (PDict e2)"
    and e2_other: "\<forall>k. k \<noteq> ''extra'' \<longrightarrow> map_of e2 k = map_of e1 k"
    and e2_extra: "\<forall>x. map_of e1 ''extra'' = Some (PDict x) \<longrightarrow>
                 map_of e2 ''extra'' = Some (PDict (redact_keys (map fst x) x))"
    by blast
  from cx e1_other e2_other have "absent_or contexts_ok e2 ''contexts''"
    by (simp add: absent_or_def)
  from filter_contexts_dict [OF this] obtain e3 where
    e3: "filter_contexts (PDict e2) = Inr (PDict e3)"
    and e3_other: "\<forall>k. k \<noteq> ''contexts'' \<longrightarrow> map_of e3 k = map_of e2 k"
    by blast
  have run: "before_send_filter (PDict e) hint = Inr (Some (PDict e3))"
    using e1 e2 e3 by (simp add: before_send_filter_def bind_def)
  have hdr: "map_of e3 ''request'' = map_of e1 ''request''"
    using e3_other e2_other by simp
  have ext: "map_of e3 ''extra'' = map_of e2 ''extra''" "map_of e1 ''extra'' = map_of e ''extra''"
    using e3_other e1_other by simp_all
  show ?thesis
    using run e1_hdr e2_extra hdr ext by simp
qed

subsection \<open>Query-string sanitisation\<close>

text \<open>
  A query string that holds neither \<^verbatim>\<open>token=\<close> nor \<^verbatim>\<open>api_key=\<close> comes back as it
  was: \<^verbatim>\<open>replace\<close> changes nothing where the pattern does not occur.
\<close>

lemma replace_absent: "old \<noteq> [] \<Longrightarrow> \<not> sublist old s \<Longrightarrow> replace old new s = s"
proof (induction s)
  case Nil
  then show ?case by simp
next
  case (Cons c cs)
  from Cons.prems have "\<not> prefix old (c # cs)" and "\<not> sublist old cs"
    by (auto simp: sublist_Cons_right)
  with Cons show ?case by simp
qed

lemma sanitize_query_unchanged:
  assumes "map_of r ''query_string'' = Some (PStr q)"
    and "\<not> sublist ''token='' q" and "\<not> sublist ''api_key='' q"
  shows "\<exists>r'. sanitize_query (PDict r) = Inr (PDict r')
           \<and> map_of r' ''query_string'' = Some (PStr q)"
  using assms by (auto simp: sanitize_query_def bind_def replace_absent map_of_update_same)

text \<open>
  Claim C1: on a present, non-empty \<^verbatim>\<open>request.query_string\<close> the filter is to replace the
  value of every \<^verbatim>\<open>token=\<close> and \<^verbatim>\<open>api_key=\<close> parameter by \<^verbatim>\<open>[REDACTED]\<close>, so that
  \<^verbatim>\<open>api_key=ABC123&page=2\<close> becomes \<^verbatim>\<open>api_key=[REDACTED]&page=2\<close>. The source replaces
  the text \<^verbatim>\<open>api_key=\<close> by \<^verbatim>\<open>api_key=[REDACTED]\<close> and never touches what follows: the
  marker is inserted in front of the value, and the value \<^verbatim>\<open>ABC123\<close> stays in the event.
\<close>

theorem query_string_value_kept:
  "before_send_filter
     (PDict [(''request'', PDict [(''query_string'', PStr ''api_key=ABC123&page=2'')])])
     (PDict []) =
   Inr (Some
     (PDict [(''request'', PDict [(''query_string'', PStr ''api_key=[REDACTED]ABC123&page=2'')])]))"
  by code_simp

subsection \<open>Header removal\<close>

text \<open>
  Claim C2: the filter is to remove the headers \<^verbatim>\<open>authorization\<close>, \<^verbatim>\<open>cookie\<close> and
  \<^verbatim>\<open>x-api-key\<close> whatever the letter casing of the key. The source, under the comment
  \<^verbatim>\<open>Remove authorization headers\<close>, pops the three names in lower case only, while the
  rule for the extra fields next to it folds the case with \<^verbatim>\<open>key.lower()\<close>: on the
  scenario event the header \<^verbatim>\<open>Authorization\<close> and its bearer token are still there after
  the filter.
\<close>

theorem authorization_header_kept:
  "before_send_filter
     (PDict [(''request'', PDict [(''headers'',
        PDict [(''Authorization'', PStr ''Bearer x''), (''User-Agent'', PStr ''curl'')])])])
     (PDict []) =
   Inr (Some
     (PDict [(''request'', PDict [(''headers'',
        PDict [(''Authorization'', PStr ''Bearer x''), (''User-Agent'', PStr ''curl'')])])]))"
  by code_simp

subsection \<open>Idempotence\<close>

text \<open>
  Claim C3: filtering twice is to give the same event as filtering once. Because the
  query-string rule inserts the marker after \<^verbatim>\<open>token=\<close> and leaves that text in place, a
  second pass matches again and inserts a second marker: \<^verbatim>\<open>token=x\<close> becomes
  \<^verbatim>\<open>token=[REDACTED]x\<close> and then \<^verbatim>\<open>token=[REDACTED][REDACTED]x\<close>.
\<close>

theorem before_send_filter_not_idempotent:
  "before_send_filter (PDict [(''request'', PDict [(''query_string'', PStr ''token=x'')])]) (PDict [])
     = Inr (Some (PDict [(''request'', PDict [(''query_string'', PStr ''token=[REDACTED]x'')])]))
   \<and> before_send_filter
       (PDict [(''request'', PDict [(''query_string'', PStr ''token=[REDACTED]x'')])]) (PDict [])
     = Inr (Some
         (PDict [(''request'', PDict [(''query_string'', PStr ''token=[REDACTED][REDACTED]x'')])]))"
  by code_simp

subsection \<open>The event is never dropped\<close>

lemma key_present: "map_of d k = Some v \<Longrightarrow> k \<in> set (map fst d)"
  by (metis map_of_eq_None_iff option.distinct(1) set_map)

lemma same_except_refl: "same_except ks d d"
  by (simp add: same_except_def)

lemma same_except_update:
  assumes "map_of d k = Some v" and "k \<in> ks"
  shows "same_except ks d (AList.update k v' d)"
proof -
  from assms(1) have "k \<in> set (map fst d)" by (rule key_present)
  then have "map fst (AList.update k v' d) = map fst d" by (rule keys_update_present)
  moreover have "map_of (AList.update k v' d) k' = map_of d k'" if "k' \<notin> ks" for k'
    using that assms(2) by (auto simp: update_conv')
  ultimately show ?thesis by (simp add: same_except_def)
qed

lemma same_except_trans:
  "same_except ks d d' \<Longrightarrow> same_except ks' d' d'' \<Longrightarrow> same_except (ks \<union> ks') d d''"
  by (simp add: same_except_def)

lemma same_except_mono: "same_except ks d d' \<Longrightarrow> ks \<subseteq> ks' \<Longrightarrow> same_except ks' d d'"
  by (auto simp: same_except_def)

lemma replace_Nil: "old \<noteq> [] \<Longrightarrow> replace old new [] = []"
  by simp

lemma sanitize_headers_masked:
  assumes "absent_or is_dict r ''headers''"
  shows "\<exists>r'. sanitize_headers (PDict r) = Inr (PDict r')
           \<and> same_except {''headers''} r r'
           \<and> (\<forall>h. map_of r ''headers'' = Some (PDict h) \<longrightarrow>
                 map_of r' ''headers'' =
                   Some (PDict (filter (\<lambda>kv. fst kv \<notin> {''authorization'', ''cookie'', ''x-api-key''}) h)))"
proof (cases "map_of r ''headers''")
  case None
  then show ?thesis by (simp add: sanitize_headers_def bind_def same_except_refl)
next
  case (Some v)
  with assms obtain h where v: "v = PDict h"
    by (auto simp: absent_or_def elim: is_dictE)
  have "sanitize_headers (PDict r) =
      Inr (PDict (AList.update ''headers''
        (PDict (filter (\<lambda>kv. fst kv \<notin> {''authorization'', ''cookie'', ''x-api-key''}) h)) r))"
    using Some v by (simp add: sanitize_headers_def bind_def pop_headers_dict)
  moreover have "same_except {''headers''} r (AList.update ''headers''
        (PDict (filter (\<lambda>kv. fst kv \<notin> {''authorization'', ''cookie'', ''x-api-key''}) h)) r)"
    using Some by (simp add: same_except_update)
  ultimately show ?thesis
    using Some v by (simp add: map_of_update_same)
qed

lemma sanitize_query_masked:
  assumes "absent_or query_ok r ''query_string''"
  shows "\<exists>r'. sanitize_query (PDict r) = Inr (PDict r')
           \<and> same_except {''query_string''} r r'
           \<and> (\<forall>q. map_of r ''query_string'' = Some q \<longrightarrow>
                 map_of r' ''query_string'' =
                   Some (case q of
                           PStr s \<Rightarrow>
                             PStr (replace ''api_key='' ''api_key=[REDACTED]''
                                    (replace ''token='' ''token=[REDACTED]'' s))
                         | _ \<Rightarrow> q))"
proof (cases "map_of r ''query_string''")
  case None
  then show ?thesis by (simp add: sanitize_query_def bind_def same_except_refl)
next
  case (Some q)
  with assms have ok: "is_str q \<or> \<not> truthy q"
    by (simp add: absent_or_def query_ok_def)
  show ?thesis
  proof (cases "truthy q")
    case False
    then have "sanitize_query (PDict r) = Inr (PDict r)"
      using Some by (simp add: sanitize_query_def bind_def)
    moreover from False have "(case q of
                           PStr s \<Rightarrow>
                             PStr (replace ''api_key='' ''api_key=[REDACTED]''
                                    (replace ''token='' ''token=[REDACTED]'' s))
                         | _ \<Rightarrow> q) = q"
      by (cases q) simp_all
    ultimately show ?thesis
      using Some by (simp add: same_except_refl)
  next
    case True
    with ok obtain s where q: "q = PStr s"
      by (cases q) (auto simp: is_str_def)
    let ?s' = "replace ''api_key='' ''api_key=[REDACTED]'' (replace ''token='' ''token=[REDACTED]'' s)"
    have "sanitize_query (PDict r) = Inr (PDict (AList.update ''query_string'' (PStr ?s') r))"
      using Some q True by (simp add: sanitize_query_def bind_def)
    moreover have "same_except {''query_string''} r (AList.update ''query_string'' (PStr ?s') r)"
      using Some by (simp add: same_except_update)
    ultimately show ?thesis
      using Some q by (simp add: map_of_update_same)
  qed
qed

lemma filter_request_masked:
  assumes "absent_or request_ok e ''request''"
  shows "\<exists>e'. filter_request (PDict e) = Inr (PDict e')
           \<and> same_except {''request''} e e'
           \<and> (\<forall>r. map_of e ''request'' = Some (PDict r) \<longrightarrow>
                 (\<exists>r'. map_of e' ''request'' = Some (PDict r') \<and> request_masked r r'))"
proof (cases "map_of e ''request''")
  case None
  then show ?thesis by (simp add: filter_request_def bind_def same_except_refl)
next
  case (Some v)
  with assms have ok: "request_ok v" by (simp add: absent_or_def)
  then obtain r where v: "v = PDict r"
    and hs: "absent_or is_dict r ''headers''" and qs: "absent_or query_ok r ''query_string''"
    by (cases v) (auto simp: request_ok_def)
  from sanitize_headers_masked [OF hs] obtain r1 where
    r1: "sanitize_headers (PDict r) = Inr (PDict r1)"
    and r1_same: "same_except {''headers''} r r1"
    and r1_hdr: "\<forall>h. map_of r ''headers'' = Some (PDict h) \<longrightarrow>
                 map_of r1 ''headers'' =
                   Some (PDict (filter (\<lambda>kv. fst kv \<notin> {''authorization'', ''cookie'', ''x-api-key''}) h))"
    by blast
  from r1_same have q1: "map_of r1 ''query_string'' = map_of r ''query_string''"
    by (simp add: same_except_def)
  with qs have "absent_or query_ok r1 ''query_string''"
    by (simp add: absent_or_def)
  from sanitize_query_masked [OF this] obtain r2 where
    r2: "sanitize_query (PDict r1) = Inr (PDict r2)"
    and r2_same: "same_except {''query_string''} r1 r2"
    and r2_qs: "\<forall>q. map_of r1 ''query_string'' = Some q \<longrightarrow>
                 map_of r2 ''query_string'' =
                   Some (case q of
                           PStr s \<Rightarrow>
                             PStr (replace ''api_key='' ''api_key=[REDACTED]''
                                    (replace ''token='' ''token=[REDACTED]'' s))
                         | _ \<Rightarrow> q)"
    by blast
  from r2_same have h2: "map_of r2 ''headers'' = map_of r1 ''headers''"
    by (simp add: same_except_def)
  have "same_except ({''headers''} \<union> {''query_string''}) r r2"
    using r1_same r2_same by (rule same_except_trans)
  then have "same_except {''headers'', ''query_string''} r r2"
    by (rule same_except_mono) simp
  with r1_hdr r2_qs h2 q1 have masked: "request_masked r r2"
    by (simp add: request_masked_def)
  have run: "filter_request (PDict e) = Inr (PDict (AList.update ''request'' (PDict r2) e))"
    using Some v r1 r2 by (simp add: filter_request_def bind_def)
  have "same_except {''request''} e (AList.update ''request'' (PDict r2) e)"
    using Some by (simp add: same_except_update)
  with run masked Some v show ?thesis
    by (simp add: map_of_update_same)
qed

lemma redact_keys_masked: "extra_masked x (redact_keys (map fst x) x)"
proof -
  have "map fst (redact_keys (map fst x) x) = map fst x"
    by (rule keys_redact_keys) simp
  moreover have "map_of (redact_keys (map fst x) x) k = Some (if sensitive_key k then REDACTED else v)"
    if "map_of x k = Some v" for k v
    using that key_present [OF that] by (simp add: map_of_redact_keys)
  ultimately show ?thesis by (simp add: extra_masked_def)
qed

lemma filter_extra_masked:
  assumes "absent_or is_dict e ''extra''"
  shows "\<exists>e'. filter_extra (PDict e) = Inr (PDict e')
           \<and> same_except {''extra''} e e'
           \<and> (\<forall>x. map_of e ''extra'' = Some (PDict x) \<longrightarrow>
                 (\<exists>x'. map_of e' ''extra'' = Some (PDict x') \<and> extra_masked x x'))"
proof (cases "map_of e ''extra''")
  case None
  then show ?thesis by (simp add: filter_extra_def bind_def same_except_refl)
next
  case (Some v)
  with assms obtain x where v: "v = PDict x"
    by (auto simp: absent_or_def elim: is_dictE)
  have run: "filter_extra (PDict e) =
      Inr (PDict (AList.update ''extra'' (PDict (redact_keys (map fst x) x)) e))"
    using Some v by (simp add: filter_extra_def redact_extra_def bind_def)
  have "same_except {''extra''} e (AList.update ''extra'' (PDict (redact_keys (map fst x) x)) e)"
    using Some by (simp add: same_except_update)
  with run Some v show ?thesis
    by (simp add: map_of_update_same redact_keys_masked)
qed

lemma delete_twice_filter:
  "AList.delete b (AList.delete a d) = filter (\<lambda>kv. fst kv \<notin> {a, b}) d"
  by (induction d) auto

lemma sanitize_database_masked:
  assumes "absent_or is_dict c ''database''"
  shows "\<exists>c'. sanitize_database (PDict c) = Inr (PDict c')
           \<and> same_except {''database''} c c'
           \<and> (\<forall>db. map_of c ''database'' = Some (PDict db) \<longrightarrow>
                 (\<exists>db'. map_of c' ''database'' = Some (PDict db')
                    \<and> same_except {''connection_string''} db db'
                    \<and> (\<forall>v. map_of db ''connection_string'' = Some v \<longrightarrow>
                          map_of db' ''connection_string'' = Some REDACTED)))"
proof (cases "map_of c ''database''")
  case None
  then show ?thesis by (simp add: sanitize_database_def bind_def same_except_refl)
next
  case (Some v)
  with assms obtain db where v: "v = PDict db"
    by (auto simp: absent_or_def elim: is_dictE)
  show ?thesis
  proof (cases "map_of db ''connection_string''")
    case None
    with Some v have "sanitize_database (PDict c) = Inr (PDict c)"
      by (simp add: sanitize_database_def bind_def)
    with Some v None show ?thesis
      by (simp add: same_except_refl)
  next
    case (Some old)
    let ?db' = "AList.update ''connection_string'' REDACTED db"
    have run: "sanitize_database (PDict c) = Inr (PDict (AList.update ''database'' (PDict ?db') c))"
      using \<open>map_of c ''database'' = Some v\<close> v Some
      by (simp add: sanitize_database_def bind_def)
    have "same_except {''database''} c (AList.update ''database'' (PDict ?db') c)"
      using \<open>map_of c ''database'' = Some v\<close> by (simp add: same_except_update)
    moreover have "same_except {''connection_string''} db ?db'"
      using Some by (simp add: same_except_update)
    ultimately show ?thesis
      using run \<open>map_of c ''database'' = Some v\<close> v
      by (simp add: map_of_update_same)
  qed
qed

lemma sanitize_stripe_masked:
  assumes "absent_or is_dict c ''stripe''"
  shows "\<exists>c'. sanitize_stripe (PDict c) = Inr (PDict c')
           \<and> same_except {''stripe''} c c'
           \<and> (\<forall>st. map_of c ''stripe'' = Some (PDict st) \<longrightarrow>
                 map_of c' ''stripe'' =
                   Some (PDict (filter (\<lambda>kv. fst kv \<notin> {''secret_key'', ''api_key''}) st)))"
proof (cases "map_of c ''stripe''")
  case None
  then show ?thesis by (simp add: sanitize_stripe_def bind_def same_except_refl)
next
  case (Some v)
  with assms obtain st where v: "v = PDict st"
    by (auto simp: absent_or_def elim: is_dictE)
  let ?st' = "AList.delete ''api_key'' (AList.delete ''secret_key'' st)"
  have run: "sanitize_stripe (PDict c) = Inr (PDict (AList.update ''stripe'' (PDict ?st') c))"
    using Some v by (simp add: sanitize_stripe_def bind_def)
  have "same_except {''stripe''} c (AList.update ''stripe'' (PDict ?st') c)"
    using Some by (simp add: same_except_update)
  moreover have "?st' = filter (\<lambda>kv. fst kv \<notin> {''secret_key'', ''api_key''}) st"
    by (rule delete_twice_filter)
  ultimately show ?thesis
    using run Some v by (simp add: map_of_update_same)
qed

lemma filter_contexts_masked:
  assumes "absent_or contexts_ok e ''contexts''"
  shows "\<exists>e'. filter_contexts (PDict e) = Inr (PDict e')
           \<and> same_except {''contexts''} e e'
           \<and> (\<forall>c. map_of e ''contexts'' = Some (PDict c) \<longrightarrow>
                 (\<exists>c'. map_of e' ''contexts'' = Some (PDict c') \<and> contexts_masked c c'))"
proof (cases "map_of e ''contexts''")
  case None
  then show ?thesis by (simp add: filter_contexts_def bind_def same_except_refl)
next
  case (Some v)
  with assms have "contexts_ok v" by (simp add: absent_or_def)
  then obtain c where v: "v = PDict c"
    and db: "absent_or is_dict c ''database''" and st: "absent_or is_dict c ''stripe''"
    by (cases v) (auto simp: contexts_ok_def)
  from sanitize_database_masked [OF db] obtain c1 where
    c1: "sanitize_database (PDict c) = Inr (PDict c1)"
    and c1_same: "same_except {''database''} c c1"
    and c1_db: "\<forall>db. map_of c ''database'' = Some (PDict db) \<longrightarrow>
                 (\<exists>db'. map_of c1 ''database'' = Some (PDict db')
                    \<and> same_except {''connection_string''} db db'
                    \<and> (\<forall>v. map_of db ''connection_string'' = Some v \<longrightarrow>
                          map_of db' ''connection_string'' = Some REDACTED))"
    by blast
  from c1_same have s1: "map_of c1 ''stripe'' = map_of c ''stripe''"
    by (simp add: same_except_def)
  with st have "absent_or is_dict c1 ''stripe''"
    by (simp add: absent_or_def)
  from sanitize_stripe_masked [OF this] obtain c2 where
    c2: "sanitize_stripe (PDict c1) = Inr (PDict c2)"
    and c2_same: "same_except {''stripe''} c1 c2"
    and c2_st: "\<forall>st. map_of c1 ''stripe'' = Some (PDict st) \<longrightarrow>
                 map_of c2 ''stripe'' =
                   Some (PDict (filter (\<lambda>kv. fst kv \<notin> {''secret_key'', ''api_key''}) st))"
    by blast
  from c2_same have d2: "map_of c2 ''database'' = map_of c1 ''database''"
    by (simp add: same_except_def)
  have "same_except ({''database''} \<union> {''stripe''}) c c2"
    using c1_same c2_same by (rule same_except_trans)
  then have "same_except {''database'', ''stripe''} c c2"
    by (rule same_except_mono) simp
  with c1_db c2_st d2 s1 have masked: "contexts_masked c c2"
    by (simp add: contexts_masked_def)
  have run: "filter_contexts (PDict e) = Inr (PDict (AList.update ''contexts'' (PDict c2) e))"
    using Some v c1 c2 by (simp add: filter_contexts_def bind_def)
  have "same_except {''contexts''} e (AList.update ''contexts'' (PDict c2) e)"
    using Some by (simp add: same_except_update)
  with run masked Some v show ?thesis
    by (simp add: map_of_update_same)
qed

lemma before_send_filter_masked:
  assumes "event_shape_ok (PDict e)"
  shows "\<exists>e'. before_send_filter (PDict e) hint = Inr (Some (PDict e')) \<and> event_masked e e'"
proof -
  from assms have rq: "absent_or request_ok e ''request''"
    and ex: "absent_or is_dict e ''extra''" and cx: "absent_or contexts_ok e ''contexts''"
    by (simp_all add: event_shape_ok_def)
  from filter_request_masked [OF rq] obtain e1 where
    e1: "filter_request (PDict e) = Inr (PDict e1)"
    and e1_same: "same_except {''request''} e e1"
    and e1_req: "\<forall>r. map_of e ''request'' = Some (PDict r) \<longrightarrow>
                 (\<exists>r'. map_of e1 ''request'' = Some (PDict r') \<and> request_masked r r')"
    by blast
  from e1_same have x1: "map_of e1 ''extra'' = map_of e ''extra''"
    and c1: "map_of e1 ''contexts'' = map_of e ''contexts''"
    by (simp_all add: same_except_def)
  from ex x1 have "absent_or is_dict e1 ''extra''"
    by (simp add: absent_or_def)
  from filter_extra_masked [OF this] obtain e2 where
    e2: "filter_extra (PDict e1) = Inr (PDict e2)"
    and e2_same: "same_except {''extra''} e1 e2"
    and e2_extra: "\<forall>x. map_of e1 ''extra'' = Some (PDict x) \<longrightarrow>
                 (\<exists>x'. map_of e2 ''extra'' = Some (PDict x') \<and> extra_masked x x')"
    by blast
  from e2_same have r2: "map_of e2 ''request'' = map_of e1 ''request''"
    and c2: "map_of e2 ''contexts'' = map_of e1 ''contexts''"
    by (simp_all add: same_except_def)
  from cx c1 c2 have "absent_or contexts_ok e2 ''contexts''"
    by (simp add: absent_or_def)
  from filter_contexts_masked [OF this] obtain e3 where
    e3: "filter_contexts (PDict e2) = Inr (PDict e3)"
    and e3_same: "same_except {''contexts''} e2 e3"
    and e3_ctx: "\<forall>c. map_of e2 ''contexts'' = Some (PDict c) \<longrightarrow>
                 (\<exists>c'. map_of e3 ''contexts'' = Some (PDict c') \<and> contexts_masked c c')"
    by blast
  from e3_same have r3: "map_of e3 ''request'' = map_of e2 ''request''"
    and x3: "map_of e3 ''extra'' = map_of e2 ''extra''"
    by (simp_all add: same_except_def)
  have run: "before_send_filter (PDict e) hint = Inr (Some (PDict e3))"
    using e1 e2 e3 by (simp add: before_send_filter_def bind_def)
  have "same_except ({''request''} \<union> {''extra''}) e e2"
    using e1_same e2_same by (rule same_except_trans)
  then have "same_except (({''request''} \<union> {''extra''}) \<union> {''contexts''}) e e3"
    using e3_same by (rule same_except_trans)
  then have same: "same_except {''request'', ''extra'', ''contexts''} e e3"
    by (rule same_except_mono) simp
  have "event_masked e e3"
    unfolding event_masked_def
    using same e1_req e2_extra e3_ctx by (simp add: r3 r2 x3 x1 c2 c1)
  with run show ?thesis by blast
qed

text \<open>
  Claim C4: \<^verbatim>\<open>before_send_filter\<close> never returns \<^verbatim>\<open>None\<close>, whatever the event; and on every
  event of the expected shape it returns that same event with only the sensitive parts
  masked: the same keys in the same order, every key other than \<^verbatim>\<open>request\<close>, \<^verbatim>\<open>extra\<close>
  and \<^verbatim>\<open>contexts\<close> with its value, and under those three the dictionary that the rules
  for the request, the extra fields and the contexts make of the original one.
\<close>

theorem before_send_filter_never_drops:
  "before_send_filter event hint \<noteq> Inr None
   \<and> (event_shape_ok event \<longrightarrow>
        (\<exists>e e'. event = PDict e \<and> before_send_filter event hint = Inr (Some (PDict e'))
           \<and> event_masked e e'))"
proof
  show "before_send_filter event hint \<noteq> Inr None"
    by (simp add: before_send_filter_def bind_def split: sum.splits)
next
  show "event_shape_ok event \<longrightarrow>
        (\<exists>e e'. event = PDict e \<and> before_send_filter event hint = Inr (Some (PDict e'))
           \<and> event_masked e e')"
  proof
    assume ok: "event_shape_ok event"
    then obtain e where e: "event = PDict e"
      by (cases event) (simp_all add: event_shape_ok_def)
    with ok before_send_filter_masked [of e hint]
    show "\<exists>e e'. event = PDict e \<and> before_send_filter event hint = Inr (Some (PDict e'))
           \<and> event_masked e e'"
      by blast
  qed
qed

theorem before_send_filter_never_drops_witness:
  "event_shape_ok (PDict
      [(''message'', PStr ''boom''),
       (''request'', PDict [(''url'', PStr ''http://h/''),
          (''headers'', PDict [(''authorization'', PStr ''Bearer x''),
                               (''user-agent'', PStr ''curl'')])]),
       (''extra'', PDict [(''password'', PStr ''hunter2''), (''user'', PStr ''bob'')])])
   \<and> (\<exists>e' r' x'. before_send_filter (PDict
      [(''message'', PStr ''boom''),
       (''request'', PDict [(''url'', PStr ''http://h/''),
          (''headers'', PDict [(''authorization'', PStr ''Bearer x''),
                               (''user-agent'', PStr ''curl'')])]),
       (''extra'', PDict [(''password'', PStr ''hunter2''), (''user'', PStr ''bob'')])]) PNone
         = Inr (Some (PDict e'))
       \<and> map fst e' = [''message'', ''request'', ''extra'']
       \<and> map_of e' ''message'' = Some (PStr ''boom'')
       \<and> map_of e' ''request'' = Some (PDict r')
       \<and> map_of r' ''url'' = Some (PStr ''http://h/'')
       \<and> map_of r' ''headers'' = Some (PDict [(''user-agent'', PStr ''curl'')])
       \<and> map_of e' ''extra'' = Some (PDict x')
       \<and> map_of x' ''password'' = Some (PStr ''[REDACTED]'')
       \<and> map_of x' ''user'' = Some (PStr ''bob''))"
proof -
  let ?h = "[(''authorization'', PStr ''Bearer x''), (''user-agent'', PStr ''curl'')]"
  let ?r = "[(''url'', PStr ''http://h/''), (''headers'', PDict ?h)]"
  let ?x = "[(''password'', PStr ''hunter2''), (''user'', PStr ''bob'')]"
  let ?e = "[(''message'', PStr ''boom''), (''request'', PDict ?r), (''extra'', PDict ?x)]"
  have shape: "event_shape_ok (PDict ?e)" by code_simp
  have sp: "sensitive_key ''password''" and su: "\<not> sensitive_key ''user''" by code_simp+
  from before_send_filter_never_drops [of "PDict ?e" PNone] shape
  obtain e' where run: "before_send_filter (PDict ?e) PNone = Inr (Some (PDict e'))"
    and masked: "event_masked ?e e'"
    by blast
  from masked have same: "same_except {''request'', ''extra'', ''contexts''} ?e e'"
    and req: "\<forall>r. map_of ?e ''request'' = Some (PDict r) \<longrightarrow>
           (\<exists>r'. map_of e' ''request'' = Some (PDict r') \<and> request_masked r r')"
    and ext: "\<forall>x. map_of ?e ''extra'' = Some (PDict x) \<longrightarrow>
           (\<exists>x'. map_of e' ''extra'' = Some (PDict x') \<and> extra_masked x x')"
    unfolding event_masked_def by blast+
  from same have keys: "map fst e' = [''message'', ''request'', ''extra'']"
    and msg: "map_of e' ''message'' = Some (PStr ''boom'')"
    by (simp_all add: same_except_def)
  from req have "\<exists>r'. map_of e' ''request'' = Some (PDict r') \<and> request_masked ?r r'"
    by simp
  then obtain r' where r': "map_of e' ''request'' = Some (PDict r')"
    and rm: "request_masked ?r r'"
    by blast
  from rm have url: "map_of r' ''url'' = Some (PStr ''http://h/'')"
    and hdr: "map_of r' ''headers'' = Some (PDict [(''user-agent'', PStr ''curl'')])"
    by (simp_all add: request_masked_def same_except_def)
  from ext have "\<exists>x'. map_of e' ''extra'' = Some (PDict x') \<and> extra_masked ?x x'"
    by simp
  then obtain x' where x': "map_of e' ''extra'' = Some (PDict x')"
    and xm: "extra_masked ?x x'"
    by blast
  from xm sp su have pw: "map_of x' ''password'' = Some (PStr ''[REDACTED]'')"
    and us: "map_of x' ''user'' = Some (PStr ''bob'')"
    by (simp_all add: extra_masked_def REDACTED_def)
  show ?thesis
  proof (intro conjI exI)
    show "event_shape_ok (PDict ?e)" by (rule shape)
    show "before_send_filter (PDict ?e) PNone = Inr (Some (PDict e'))" by (rule run)
    show "map fst e' = [''message'', ''request'', ''extra'']" by (rule keys)
    show "map_of e' ''message'' = Some (PStr ''boom'')" by (rule msg)
    show "map_of e' ''request'' = Some (PDict r')" by (rule r')
    show "map_of r' ''url'' = Some (PStr ''http://h/'')" by (rule url)
    show "map_of r' ''headers'' = Some (PDict [(''user-agent'', PStr ''curl'')])" by (rule hdr)
    show "map_of e' ''extra'' = Some (PDict x')" by (rule x')
    show "map_of x' ''password'' = Some (PStr ''[REDACTED]'')" by (rule pw)
    show "map_of x' ''user'' = Some (PStr ''bob'')" by (rule us)
  qed
qed

subsection \<open>Extra fields\<close>

text \<open>
  Claim C6: for an event with an \<^verbatim>\<open>extra\<close> dictionary, the filter returns the event; the
  \<^verbatim>\<open>extra\<close> of the result has the same keys in the same order (none added, none removed);
  every key whose lower-cased form contains \<^verbatim>\<open>password\<close> or \<^verbatim>\<open>secret\<close> is bound to
  \<^verbatim>\<open>[REDACTED]\<close>, and every other key keeps its value.
\<close>

theorem extra_redaction:
  assumes "event_shape_ok (PDict e)"
    and "map_of e ''extra'' = Some (PDict x)"
  shows "\<exists>e' x'. before_send_filter (PDict e) hint = Inr (Some (PDict e'))
           \<and> map_of e' ''extra'' = Some (PDict x')
           \<and> map fst x' = map fst x
           \<and> (\<forall>k v. map_of x k = Some v \<longrightarrow>
                 map_of x' k =
                   Some (if sublist ''password'' (lower k) \<or> sublist ''secret'' (lower k)
                         then PStr ''[REDACTED]'' else v))"
proof -
  from before_send_filter_dict [OF assms(1), of hint] assms(2) obtain e' where
    run: "before_send_filter (PDict e) hint = Inr (Some (PDict e'))"
    and ext: "map_of e' ''extra'' = Some (PDict (redact_keys (map fst x) x))"
    by blast
  have keys: "map fst (redact_keys (map fst x) x) = map fst x"
    by (rule keys_redact_keys) simp
  have vals: "map_of (redact_keys (map fst x) x) k =
          Some (if sublist ''password'' (lower k) \<or> sublist ''secret'' (lower k)
                then PStr ''[REDACTED]'' else v)"
    if "map_of x k = Some v" for k v
  proof -
    from that have "k \<in> set (map fst x)"
      by (metis map_of_eq_None_iff option.distinct(1) set_map)
    with that show ?thesis
      by (simp add: map_of_redact_keys sensitive_key_def contains_sublist REDACTED_def)
  qed
  from run ext keys vals show ?thesis by blast
qed

theorem extra_redaction_witness:
  "event_shape_ok (PDict [(''extra'',
       PDict [(''user'', PStr ''bob''), (''DB_Password'', PStr ''hunter2''), (''client_secret_id'', PNum 5)])])
   \<and> (\<exists>e' x'. before_send_filter (PDict [(''extra'',
       PDict [(''user'', PStr ''bob''), (''DB_Password'', PStr ''hunter2''), (''client_secret_id'', PNum 5)])]) PNone
         = Inr (Some (PDict e'))
       \<and> map_of e' ''extra'' = Some (PDict x')
       \<and> map fst x' = [''user'', ''DB_Password'', ''client_secret_id'']
       \<and> map_of x' ''user'' = Some (PStr ''bob'')
       \<and> map_of x' ''DB_Password'' = Some (PStr ''[REDACTED]'')
       \<and> map_of x' ''client_secret_id'' = Some (PStr ''[REDACTED]''))"
proof -
  let ?x = "[(''user'', PStr ''bob''), (''DB_Password'', PStr ''hunter2''), (''client_secret_id'', PNum 5)]"
  let ?e = "[(''extra'', PDict ?x)]"
  have shape: "event_shape_ok (PDict ?e)" by code_simp
  have ext: "map_of ?e ''extra'' = Some (PDict ?x)" by simp
  have u: "\<not> (sublist ''password'' (lower ''user'') \<or> sublist ''secret'' (lower ''user''))"
    unfolding contains_sublist [symmetric] by code_simp
  have p: "sublist ''password'' (lower ''DB_Password'')"
    unfolding contains_sublist [symmetric] by code_simp
  have s: "sublist ''secret'' (lower ''client_secret_id'')"
    unfolding contains_sublist [symmetric] by code_simp
  from extra_redaction [OF shape ext, of PNone] obtain e' x' where
    run: "before_send_filter (PDict ?e) PNone = Inr (Some (PDict e'))"
    and ex: "map_of e' ''extra'' = Some (PDict x')"
    and keys: "map fst x' = map fst ?x"
    and vals: "\<forall>k v. map_of ?x k = Some v \<longrightarrow>
                 map_of x' k =
                   Some (if sublist ''password'' (lower k) \<or> sublist ''secret'' (lower k)
                         then PStr ''[REDACTED]'' else v)"
    by blast
  from vals [rule_format, of "''user''" "PStr ''bob''"] u
  have v1: "map_of x' ''user'' = Some (PStr ''bob'')" by simp
  from vals [rule_format, of "''DB_Password''" "PStr ''hunter2''"] p
  have v2: "map_of x' ''DB_Password'' = Some (PStr ''[REDACTED]'')" by simp
  from vals [rule_format, of "''client_secret_id''" "PNum 5"] s
  have v3: "map_of x' ''client_secret_id'' = Some (PStr ''[REDACTED]'')" by simp
  from keys have k: "map fst x' = [''user'', ''DB_Password'', ''client_secret_id'']" by simp
  show ?thesis
  proof (intro conjI exI)
    show "event_shape_ok (PDict ?e)" by (rule shape)
    show "before_send_filter (PDict ?e) PNone = Inr (Some (PDict e'))" by (rule run)
    show "map_of e' ''extra'' = Some (PDict x')" by (rule ex)
    show "map fst x' = [''user'', ''DB_Password'', ''client_secret_id'']" by (rule k)
    show "map_of x' ''user'' = Some (PStr ''bob'')" by (rule v1)
    show "map_of x' ''DB_Password'' = Some (PStr ''[REDACTED]'')" by (rule v2)
    show "map_of x' ''client_secret_id'' = Some (PStr ''[REDACTED]'')" by (rule v3)
  qed
qed

subsection \<open>Breadcrumbs\<close>

lemma any_in_str: "any_in xs (PStr u) = Inr (\<exists>x\<in>set xs. sublist x u)"
  by (induction xs) (auto simp: bind_def contains_sublist)

lemma any_in_markers:
  "any_in analytics_markers (PStr u) =
     Inr (sublist ''analytics'' u \<or> sublist ''tracking'' u \<or> sublist ''segment'' u
           \<or> sublist ''mixpanel'' u)"
  unfolding any_in_str by (simp add: analytics_markers_def)

text \<open>
  Claim C5: \<^verbatim>\<open>before_breadcrumb_filter\<close> drops a breadcrumb of category \<^verbatim>\<open>query\<close>; it drops
  a breadcrumb of category \<^verbatim>\<open>httplib\<close> whose \<^verbatim>\<open>data.url\<close> contains \<^verbatim>\<open>analytics\<close>,
  \<^verbatim>\<open>tracking\<close>, \<^verbatim>\<open>segment\<close> or \<^verbatim>\<open>mixpanel\<close>; and it returns every other breadcrumb of the
  expected shape unchanged.
\<close>

theorem breadcrumb_filter_decision:
  "(map_of c ''category'' = Some (PStr ''query'') \<longrightarrow>
      before_breadcrumb_filter (PDict c) hint = Inr None)
   \<and> (map_of c ''category'' = Some (PStr ''httplib'') \<and> map_of c ''data'' = Some (PDict d)
        \<and> map_of d ''url'' = Some (PStr u)
        \<and> (sublist ''analytics'' u \<or> sublist ''tracking'' u \<or> sublist ''segment'' u
             \<or> sublist ''mixpanel'' u) \<longrightarrow>
      before_breadcrumb_filter (PDict c) hint = Inr None)
   \<and> (crumb_shape_ok (PDict c) \<and> map_of c ''category'' \<noteq> Some (PStr ''query'')
        \<and> \<not> (map_of c ''category'' = Some (PStr ''httplib'')
              \<and> (\<exists>d u. map_of c ''data'' = Some (PDict d) \<and> map_of d ''url'' = Some (PStr u)
                    \<and> (sublist ''analytics'' u \<or> sublist ''tracking'' u \<or> sublist ''segment'' u
                         \<or> sublist ''mixpanel'' u))) \<longrightarrow>
      before_breadcrumb_filter (PDict c) hint = Inr (Some (PDict c)))"
proof (intro conjI impI)
  assume "map_of c ''category'' = Some (PStr ''query'')"
  then show "before_breadcrumb_filter (PDict c) hint = Inr None"
    by (simp add: before_breadcrumb_filter_def bind_def)
next
  assume "map_of c ''category'' = Some (PStr ''httplib'') \<and> map_of c ''data'' = Some (PDict d)
        \<and> map_of d ''url'' = Some (PStr u)
        \<and> (sublist ''analytics'' u \<or> sublist ''tracking'' u \<or> sublist ''segment'' u
             \<or> sublist ''mixpanel'' u)"
  then show "before_breadcrumb_filter (PDict c) hint = Inr None"
    by (simp add: before_breadcrumb_filter_def bind_def any_in_markers del: any_in.simps)
next
  assume a: "crumb_shape_ok (PDict c) \<and> map_of c ''category'' \<noteq> Some (PStr ''query'')
        \<and> \<not> (map_of c ''category'' = Some (PStr ''httplib'')
              \<and> (\<exists>d u. map_of c ''data'' = Some (PDict d) \<and> map_of d ''url'' = Some (PStr u)
                    \<and> (sublist ''analytics'' u \<or> sublist ''tracking'' u \<or> sublist ''segment'' u
                         \<or> sublist ''mixpanel'' u)))"
  show "before_breadcrumb_filter (PDict c) hint = Inr (Some (PDict c))"
  proof (cases "map_of c ''category'' = Some (PStr ''httplib'')")
    case False
    with a show ?thesis
      by (auto simp: before_breadcrumb_filter_def bind_def split: option.splits)
  next
    case True
    show ?thesis
    proof (cases "map_of c ''data''")
      case None
      with True show ?thesis
        by (simp add: before_breadcrumb_filter_def bind_def any_in_markers del: any_in.simps)
    next
      case (Some v)
      with a obtain d where v: "v = PDict d" and url: "absent_or is_str d ''url''"
        by (cases v) (auto simp: crumb_shape_ok_def absent_or_def data_ok_def)
      show ?thesis
      proof (cases "map_of d ''url''")
        case None
        with True Some v show ?thesis
          by (simp add: before_breadcrumb_filter_def bind_def any_in_markers del: any_in.simps)
      next
        case (Some w)
        with url obtain u where w: "w = PStr u"
          by (cases w) (auto simp: absent_or_def is_str_def)
        from a True \<open>map_of c ''data'' = Some v\<close> v Some w
        have "\<not> (sublist ''analytics'' u \<or> sublist ''tracking'' u \<or> sublist ''segment'' u
                   \<or> sublist ''mixpanel'' u)"
          by blast
        with True \<open>map_of c ''data'' = Some v\<close> v Some w show ?thesis
          by (simp add: before_breadcrumb_filter_def bind_def any_in_markers del: any_in.simps)
      qed
    qed
  qed
qed

theorem breadcrumb_filter_decision_witness:
  "before_breadcrumb_filter (PDict [(''category'', PStr ''query''), (''message'', PStr ''SELECT 1'')]) PNone
     = Inr None
   \<and> before_breadcrumb_filter
       (PDict [(''category'', PStr ''httplib''),
               (''data'', PDict [(''url'', PStr ''https://api.segment.io/v1/t'')])]) PNone
     = Inr None
   \<and> crumb_shape_ok
       (PDict [(''category'', PStr ''httplib''),
               (''data'', PDict [(''url'', PStr ''https://example.com/Analytics'')])])
   \<and> before_breadcrumb_filter
       (PDict [(''category'', PStr ''httplib''),
               (''data'', PDict [(''url'', PStr ''https://example.com/Analytics'')])]) PNone
     = Inr (Some (PDict [(''category'', PStr ''httplib''),
               (''data'', PDict [(''url'', PStr ''https://example.com/Analytics'')])]))"
proof -
  let ?q = "[(''category'', PStr ''query''), (''message'', PStr ''SELECT 1'')]"
  let ?d = "[(''url'', PStr ''https://api.segment.io/v1/t'')]"
  let ?s = "[(''category'', PStr ''httplib''), (''data'', PDict ?d)]"
  let ?k = "[(''category'', PStr ''httplib''),
             (''data'', PDict [(''url'', PStr ''https://example.com/Analytics'')])]"
  have q: "map_of ?q ''category'' = Some (PStr ''query'')" by simp
  from breadcrumb_filter_decision [where c = ?q and hint = PNone] q
  have drop_query: "before_breadcrumb_filter (PDict ?q) PNone = Inr None" by blast
  have seg: "sublist ''segment'' ''https://api.segment.io/v1/t''"
    unfolding contains_sublist [symmetric] by code_simp
  have s: "map_of ?s ''category'' = Some (PStr ''httplib'')"
    "map_of ?s ''data'' = Some (PDict ?d)"
    "map_of ?d ''url'' = Some (PStr ''https://api.segment.io/v1/t'')"
    by simp_all
  from breadcrumb_filter_decision
    [where c = ?s and d = ?d and u = "''https://api.segment.io/v1/t''" and hint = PNone] s seg
  have drop_vendor: "before_breadcrumb_filter (PDict ?s) PNone = Inr None" by blast
  have shape: "crumb_shape_ok (PDict ?k)" by code_simp
  have none: "\<not> (sublist ''analytics'' ''https://example.com/Analytics''
               \<or> sublist ''tracking'' ''https://example.com/Analytics''
               \<or> sublist ''segment'' ''https://example.com/Analytics''
               \<or> sublist ''mixpanel'' ''https://example.com/Analytics'')"
    unfolding contains_sublist [symmetric] by code_simp
  have cat: "map_of ?k ''category'' \<noteq> Some (PStr ''query'')" by simp
  have "\<not> (map_of ?k ''category'' = Some (PStr ''httplib'')
          \<and> (\<exists>d u. map_of ?k ''data'' = Some (PDict d) \<and> map_of d ''url'' = Some (PStr u)
                \<and> (sublist ''analytics'' u \<or> sublist ''tracking'' u \<or> sublist ''segment'' u
                     \<or> sublist ''mixpanel'' u)))"
    using none by auto
  with breadcrumb_filter_decision [where c = ?k and hint = PNone] shape cat
  have keep: "before_breadcrumb_filter (PDict ?k) PNone = Inr (Some (PDict ?k))" by blast
  from drop_query drop_vendor shape keep show ?thesis by (intro conjI)
qed

section \<open>Properties of the app_insights.py adapter\<close>

subsection \<open>The disabled adapter\<close>

text \<open>
  Without a connection string (unset or empty) \<^verbatim>\<open>init_app_insights\<close> prints one line
  and returns: the globals, the logger and the outbound calls are as before.
\<close>

lemma init_without_credential:
  assumes "env ''APPLICATIONINSIGHTS_CONNECTION_STRING'' = None
           \<or> env ''APPLICATIONINSIGHTS_CONNECTION_STRING'' = Some []"
  shows "init_app_insights vendor env w =
           (Inr (), w\<lparr>stdout := stdout w @
              [''[App Insights] Connection string not configured, monitoring disabled'']\<rparr>)"
  using assms by (auto simp: init_app_insights_def print_def)

text \<open>
  Claim C7: when \<^verbatim>\<open>_tracer\<close>, \<^verbatim>\<open>_metrics_exporter\<close> and \<^verbatim>\<open>_logger\<close> are all unset,
  \<^verbatim>\<open>track_event\<close>, \<^verbatim>\<open>track_metric\<close>, \<^verbatim>\<open>track_exception\<close>, \<^verbatim>\<open>track_trace\<close>,
  \<^verbatim>\<open>track_request\<close>, \<^verbatim>\<open>track_dependency\<close> and \<^verbatim>\<open>flush\<close> each return normally and leave
  the state as it was, whatever the vendor library would do: no outbound call is made.
\<close>

theorem disabled_tracking_is_noop:
  assumes "g_tracer w = None" and "g_metrics_exporter w = None" and "g_logger w = None"
  shows "track_event name properties measurements w = (Inr (), w)
       \<and> track_metric vendor name v properties w = (Inr (), w)
       \<and> track_exception error severity properties w = (Inr (), w)
       \<and> track_trace message severity properties w = (Inr (), w)
       \<and> track_request name url duration response_code success properties w = (Inr (), w)
       \<and> track_dependency name dependency_type target duration success result_code properties w
           = (Inr (), w)
       \<and> flush vendor w = (Inr (), w)"
  using assms
  by (simp add: track_event_def track_metric_def track_exception_def track_trace_def
      track_request_def track_dependency_def flush_def seq_def)

theorem disabled_tracking_is_noop_witness:
  "(let w = snd (init_app_insights (\<lambda>c. Some (Exc ''RuntimeError'' ''unreachable'' True))
                  Map.empty initial_world)
    in g_tracer w = None \<and> g_metrics_exporter w = None \<and> g_logger w = None
       \<and> calls w = []
       \<and> track_event ''signup'' (Some [(''plan'', PStr ''pro'')]) None w = (Inr (), w)
       \<and> track_metric (\<lambda>c. Some (Exc ''RuntimeError'' ''unreachable'' True))
            ''latency'' 12 None w = (Inr (), w)
       \<and> track_exception (Exc ''ValueError'' ''boom'' True) ''ERROR'' None w = (Inr (), w)
       \<and> track_trace ''hello'' ''INFO'' None w = (Inr (), w)
       \<and> track_request ''GET /'' ''http://h/'' 3 200 True None w = (Inr (), w)
       \<and> track_dependency ''db'' ''SQL'' ''pg'' 4 True None None w = (Inr (), w)
       \<and> flush (\<lambda>c. Some (Exc ''RuntimeError'' ''unreachable'' True)) w = (Inr (), w))"
proof -
  define w where "w = snd (init_app_insights (\<lambda>c. Some (Exc ''RuntimeError'' ''unreachable'' True))
                  Map.empty initial_world)"
  have w: "w = initial_world\<lparr>stdout :=
      [''[App Insights] Connection string not configured, monitoring disabled'']\<rparr>"
    unfolding w_def by (simp add: init_without_credential initial_world_def)
  have t: "g_tracer w = None" and m: "g_metrics_exporter w = None" and l: "g_logger w = None"
    and c: "calls w = []"
    by (simp_all add: w initial_world_def)
  from disabled_tracking_is_noop [OF t m l] t m l c show ?thesis
    unfolding w_def [symmetric] Let_def by blast
qed

subsection \<open>Severity of a tracked exception\<close>

lemma track_request_returns:
  "fst (track_request name url duration response_code success properties w) = Inr ()"
  by (simp add: track_request_def log_call_def)

lemma track_exception_returns: "fst (track_exception error severity properties w) = Inr ()"
  by (simp add: track_exception_def log_call_def)

text \<open>
  Claim C10: for every severity other than \<^verbatim>\<open>CRITICAL\<close> and \<^verbatim>\<open>WARNING\<close>,
  \<^verbatim>\<open>track_exception\<close> does exactly what it does for \<^verbatim>\<open>ERROR\<close>; with the logger set,
  that is one call of \<^verbatim>\<open>_logger.error\<close> with the exception.
\<close>

theorem track_exception_default_level:
  "severity \<noteq> ''CRITICAL'' \<and> severity \<noteq> ''WARNING'' \<longrightarrow>
     track_exception error severity properties w = track_exception error ''ERROR'' properties w
     \<and> (g_logger w \<noteq> None \<longrightarrow>
         track_exception error severity properties w =
           (Inr (), w\<lparr>calls := calls w @
              [LogCall ERROR (exc_message error) (Some error)
                 (exception_dimensions error properties)]\<rparr>))"
  by (simp add: track_exception_def log_call_def)

theorem track_exception_default_level_witness:
  "''INFO'' \<noteq> ''CRITICAL'' \<and> ''INFO'' \<noteq> ''WARNING''
   \<and> g_logger (initial_world\<lparr>g_logger := Some ModuleLogger\<rparr>) \<noteq> None
   \<and> track_exception (Exc ''ValueError'' ''boom'' True) ''INFO'' None
        (initial_world\<lparr>g_logger := Some ModuleLogger\<rparr>)
      = (Inr (), initial_world\<lparr>g_logger := Some ModuleLogger,
           calls := [LogCall ERROR ''boom'' (Some (Exc ''ValueError'' ''boom'' True))
                       [(''exception_type'', PStr ''ValueError''),
                        (''exception_message'', PStr ''boom'')]]\<rparr>)"
proof -
  let ?w = "initial_world\<lparr>g_logger := Some ModuleLogger\<rparr>"
  let ?e = "Exc ''ValueError'' ''boom'' True"
  have s: "''INFO'' \<noteq> ''CRITICAL'' \<and> ''INFO'' \<noteq> ''WARNING''" by simp
  have l: "g_logger ?w \<noteq> None" by simp
  have dims: "exception_dimensions ?e None =
      [(''exception_type'', PStr ''ValueError''), (''exception_message'', PStr ''boom'')]"
    by (simp add: exception_dimensions_def unpack_into_def or_empty_def)
  have cs: "calls ?w = []" by (simp add: initial_world_def)
  from track_exception_default_level [of "''INFO''" ?e None ?w] s l
  have "track_exception ?e ''INFO'' None ?w =
          (Inr (), ?w\<lparr>calls := calls ?w @
              [LogCall ERROR (exc_message ?e) (Some ?e) (exception_dimensions ?e None)]\<rparr>)"
    by blast
  then have "track_exception ?e ''INFO'' None ?w =
          (Inr (), ?w\<lparr>calls := [LogCall ERROR ''boom'' (Some ?e)
              [(''exception_type'', PStr ''ValueError''), (''exception_message'', PStr ''boom'')]]\<rparr>)"
    by (simp only: dims cs append_Nil exc.sel)
  with s l show ?thesis by simp
qed

subsection \<open>The middleware\<close>

text \<open>
  Claim C8, as stated, has exactly one of the two tracking calls made for every request.
  The handler clause is \<^verbatim>\<open>except Exception\<close>: an error that derives from
  \<^verbatim>\<open>BaseException\<close> only, such as the \<^verbatim>\<open>CancelledError\<close> of a cancelled request, passes
  through the middleware with neither call made.
\<close>

theorem middleware_skips_base_exception_counterexample:
  "app_insights_middleware 0 1 \<lparr>http_method = ''GET'', url_path = ''/items'', url_text = ''http://api/items''\<rparr>
     (Inl (Exc ''CancelledError'' [] False))
     (initial_world\<lparr>g_logger := Some ModuleLogger\<rparr>)
   = (Inl (Exc ''CancelledError'' [] False), [], initial_world\<lparr>g_logger := Some ModuleLogger\<rparr>)"
  by (simp add: app_insights_middleware_def on_exception_def)

text \<open>
  Claim C8, amended: when the handler returns a response, the middleware makes the single
  call \<^verbatim>\<open>track_request\<close> with \<^verbatim>\<open>success = (status_code < 400)\<close> and returns that
  response; when the handler raises an error that derives from \<^verbatim>\<open>Exception\<close>, it makes
  the single call \<^verbatim>\<open>track_exception\<close> with that error and severity \<^verbatim>\<open>ERROR\<close> and the
  caller sees the same error; an error that does not derive from \<^verbatim>\<open>Exception\<close> reaches
  the caller unchanged and no tracking call is made.
\<close>

theorem middleware_emission:
  "app_insights_middleware start_time end_time req (Inr resp) w =
     (Inr resp,
      [TrackRequest (http_method req @ '' '' @ url_path req) (url_text req)
         ((end_time - start_time) * 1000) (status_code resp) (status_code resp < 400)
         (request_properties req)],
      snd (track_request (http_method req @ '' '' @ url_path req) (url_text req)
             ((end_time - start_time) * 1000) (status_code resp) (status_code resp < 400)
             (request_properties req) w))
   \<and> (is_exception e \<longrightarrow>
        app_insights_middleware start_time end_time req (Inl e) w =
          (Inl e, [TrackException e ''ERROR'' (request_properties req)],
           snd (track_exception e ''ERROR'' (request_properties req) w)))
   \<and> (\<not> is_exception e \<longrightarrow>
        app_insights_middleware start_time end_time req (Inl e) w = (Inl e, [], w))"
proof (intro conjI impI)
  show "app_insights_middleware start_time end_time req (Inr resp) w =
     (Inr resp,
      [TrackRequest (http_method req @ '' '' @ url_path req) (url_text req)
         ((end_time - start_time) * 1000) (status_code resp) (status_code resp < 400)
         (request_properties req)],
      snd (track_request (http_method req @ '' '' @ url_path req) (url_text req)
             ((end_time - start_time) * 1000) (status_code resp) (status_code resp < 400)
             (request_properties req) w))"
    using track_request_returns [of "http_method req @ '' '' @ url_path req" "url_text req"
        "(end_time - start_time) * 1000" "status_code resp" "status_code resp < 400"
        "request_properties req" w]
    by (auto simp: app_insights_middleware_def Let_def split: prod.splits sum.splits)
next
  assume "is_exception e"
  then show "app_insights_middleware start_time end_time req (Inl e) w =
          (Inl e, [TrackException e ''ERROR'' (request_properties req)],
           snd (track_exception e ''ERROR'' (request_properties req) w))"
    using track_exception_returns [of e "''ERROR''" "request_properties req" w]
    by (auto simp: app_insights_middleware_def on_exception_def split: prod.splits sum.splits)
next
  assume "\<not> is_exception e"
  then show "app_insights_middleware start_time end_time req (Inl e) w = (Inl e, [], w)"
    by (simp add: app_insights_middleware_def on_exception_def)
qed

theorem middleware_emission_witness:
  "is_exception (Exc ''ValueError'' ''boom'' True)
   \<and> app_insights_middleware 10 10.25
        \<lparr>http_method = ''GET'', url_path = ''/items'', url_text = ''http://api/items''\<rparr>
        (Inl (Exc ''ValueError'' ''boom'' True))
        (initial_world\<lparr>g_logger := Some ModuleLogger\<rparr>)
      = (Inl (Exc ''ValueError'' ''boom'' True),
         [TrackException (Exc ''ValueError'' ''boom'' True) ''ERROR''
            (Some [(''method'', PStr ''GET''), (''path'', PStr ''/items'')])],
         initial_world\<lparr>g_logger := Some ModuleLogger,
           calls := [LogCall ERROR ''boom'' (Some (Exc ''ValueError'' ''boom'' True))
                       [(''exception_type'', PStr ''ValueError''),
                        (''exception_message'', PStr ''boom''),
                        (''method'', PStr ''GET''), (''path'', PStr ''/items'')]]\<rparr>)
   \<and> \<not> is_exception (Exc ''CancelledError'' [] False)
   \<and> app_insights_middleware 10 10.25
        \<lparr>http_method = ''GET'', url_path = ''/items'', url_text = ''http://api/items''\<rparr>
        (Inl (Exc ''CancelledError'' [] False))
        (initial_world\<lparr>g_logger := Some ModuleLogger\<rparr>)
      = (Inl (Exc ''CancelledError'' [] False), [],
         initial_world\<lparr>g_logger := Some ModuleLogger\<rparr>)
   \<and> app_insights_middleware 10 10.25
        \<lparr>http_method = ''GET'', url_path = ''/items'', url_text = ''http://api/items''\<rparr>
        (Inr \<lparr>status_code = 404, body = ''missing''\<rparr>)
        (initial_world\<lparr>g_logger := Some ModuleLogger\<rparr>)
      = (Inr \<lparr>status_code = 404, body = ''missing''\<rparr>,
         [TrackRequest ''GET /items'' ''http://api/items'' 250 404 False
            (Some [(''method'', PStr ''GET''), (''path'', PStr ''/items'')])],
         initial_world\<lparr>g_logger := Some ModuleLogger,
           calls := [LogCall INFO ''Request: GET /items'' None
                       [(''request_name'', PStr ''GET /items''), (''url'', PStr ''http://api/items''),
                        (''duration_ms'', PFloat 250), (''response_code'', PNum 404),
                        (''success'', PBool False),
                        (''method'', PStr ''GET''), (''path'', PStr ''/items'')]]\<rparr>)"
proof -
  let ?w = "initial_world\<lparr>g_logger := Some ModuleLogger\<rparr>"
  let ?rq = "\<lparr>http_method = ''GET'', url_path = ''/items'', url_text = ''http://api/items''\<rparr>"
  let ?v = "Exc ''ValueError'' ''boom'' True"
  let ?c = "Exc ''CancelledError'' [] False"
  let ?rs = "\<lparr>status_code = 404, body = ''missing''\<rparr>"
  have yes: "is_exception ?v" and no: "\<not> is_exception ?c" by simp_all
  have te: "snd (track_exception ?v ''ERROR''
                    (Some [(''method'', PStr ''GET''), (''path'', PStr ''/items'')]) ?w) =
      ?w\<lparr>calls := [LogCall ERROR ''boom'' (Some ?v)
                       [(''exception_type'', PStr ''ValueError''),
                        (''exception_message'', PStr ''boom''),
                        (''method'', PStr ''GET''), (''path'', PStr ''/items'')]]\<rparr>"
    by (simp add: track_exception_def log_call_def exception_dimensions_def unpack_into_def
        or_empty_def request_properties_def initial_world_def)
  have tr: "snd (track_request ''GET /items'' ''http://api/items'' 250 404 False
                    (Some [(''method'', PStr ''GET''), (''path'', PStr ''/items'')]) ?w) =
      ?w\<lparr>calls := [LogCall INFO ''Request: GET /items'' None
                       [(''request_name'', PStr ''GET /items''), (''url'', PStr ''http://api/items''),
                        (''duration_ms'', PFloat 250), (''response_code'', PNum 404),
                        (''success'', PBool False),
                        (''method'', PStr ''GET''), (''path'', PStr ''/items'')]]\<rparr>"
    by (simp add: track_request_def log_call_def unpack_into_def
        or_empty_def request_properties_def initial_world_def)
  have props: "request_properties ?rq = Some [(''method'', PStr ''GET''), (''path'', PStr ''/items'')]"
    by (simp add: request_properties_def)
  note m1 = middleware_emission [of 10 "10.25" ?rq ?rs ?w ?v]
  note m2 = middleware_emission [of 10 "10.25" ?rq ?rs ?w ?c]
  from m1 yes have a: "app_insights_middleware 10 10.25 ?rq (Inl ?v) ?w =
          (Inl ?v, [TrackException ?v ''ERROR'' (request_properties ?rq)],
           snd (track_exception ?v ''ERROR'' (request_properties ?rq) ?w))"
    by blast
  from m2 no have b: "app_insights_middleware 10 10.25 ?rq (Inl ?c) ?w = (Inl ?c, [], ?w)"
    by blast
  from m1 have c: "app_insights_middleware 10 10.25 ?rq (Inr ?rs) ?w =
     (Inr ?rs,
      [TrackRequest (http_method ?rq @ '' '' @ url_path ?rq) (url_text ?rq)
         ((10.25 - 10) * 1000) (status_code ?rs) (status_code ?rs < 400)
         (request_properties ?rq)],
      snd (track_request (http_method ?rq @ '' '' @ url_path ?rq) (url_text ?rq)
             ((10.25 - 10) * 1000) (status_code ?rs) (status_code ?rs < 400)
             (request_properties ?rq) ?w))"
    by blast
  from a b c show ?thesis
    by (simp add: te tr props)
qed

subsection \<open>Initialising twice\<close>






end
